theory Spec2Isabelle
  imports Complex_Main "HOL-Library.Word" "HOL-Library.Sublist" "HOL-Library.AList"
begin

unbundle bit_operations_syntax

section \<open>JavaScript strings\<close>

text \<open>
  A JavaScript string is a sequence of 16-bit UTF-16 code units. \<open>length\<close> is the
  string's \<open>.length\<close>, \<open>@\<close> is \<open>+\<close> on strings.
\<close>

type_synonym unit16 = "16 word"
type_synonym jsstring = "unit16 list"

definition isHighSurrogate :: "unit16 \<Rightarrow> bool" where
  "isHighSurrogate u = (0xD800 \<le> u \<and> u \<le> 0xDBFF)"

definition isLowSurrogate :: "unit16 \<Rightarrow> bool" where
  "isLowSurrogate u = (0xDC00 \<le> u \<and> u \<le> 0xDFFF)"

text \<open>
  \<open>Array.from(text)\<close> iterates the string by code points: a high surrogate followed
  by a low surrogate is one element of two code units, every other code unit (a lone
  surrogate too) is an element of its own.
\<close>

fun arrayFrom :: "jsstring \<Rightarrow> jsstring list" where
  "arrayFrom [] = []"
| "arrayFrom [u] = [[u]]"
| "arrayFrom (u # v # rest) =
     (if isHighSurrogate u \<and> isLowSurrogate v then [u, v] # arrayFrom rest
      else [u] # arrayFrom (v # rest))"

text \<open>\<open>char.charCodeAt(0)\<close>: the first code unit (NaN on the empty string, which
  compares false with everything; \<open>None\<close> here).\<close>

definition charCodeAt0 :: "jsstring \<Rightarrow> nat option" where
  "charCodeAt0 s = (case s of [] \<Rightarrow> None | u # _ \<Rightarrow> Some (unat u))"

text \<open>The Unicode scalar (code point) an element of \<open>Array.from\<close> stands for.\<close>

definition codePoint :: "jsstring \<Rightarrow> nat" where
  "codePoint s =
     (case s of
        [u, v] \<Rightarrow> 0x10000 + (unat u - 0xD800) * 0x400 + (unat v - 0xDC00)
      | u # _ \<Rightarrow> unat u
      | [] \<Rightarrow> 0)"

text \<open>
  \<open>String.prototype.trim\<close> strips the code units of ECMAScript's WhiteSpace and
  LineTerminator productions from both ends.
\<close>

definition isWhiteSpace :: "unit16 \<Rightarrow> bool" where
  "isWhiteSpace u =
     (u \<in> set [0x09, 0x0A, 0x0B, 0x0C, 0x0D, 0x20, 0xA0, 0x1680, 0x2028, 0x2029,
                0x202F, 0x205F, 0x3000, 0xFEFF]
      \<or> (0x2000 \<le> u \<and> u \<le> 0x200A))"

definition trim :: "jsstring \<Rightarrow> jsstring" where
  "trim s = rev (dropWhile isWhiteSpace (rev (dropWhile isWhiteSpace s)))"

text \<open>\<open>s.split('\n')\<close> and \<open>lines.join('\n')\<close>. Splitting the empty string gives one
  empty line.\<close>

definition newline :: unit16 where
  "newline = 0x0A"

fun splitLines :: "jsstring \<Rightarrow> jsstring list" where
  "splitLines [] = [[]]"
| "splitLines (c # cs) =
     (if c = newline then [] # splitLines cs
      else (case splitLines cs of
              [] \<Rightarrow> [[c]]
            | l # ls \<Rightarrow> (c # l) # ls))"

fun joinLines :: "jsstring list \<Rightarrow> jsstring" where
  "joinLines [] = []"
| "joinLines [l] = l"
| "joinLines (l # ls) = l @ [newline] @ joinLines ls"

text \<open>\<open>s.includes(sub)\<close>, and \<open>s.replace(sub, rep)\<close> with a string pattern: the first
  occurrence only, the string unchanged when there is none.\<close>

fun includesStr :: "jsstring \<Rightarrow> jsstring \<Rightarrow> bool" where
  "includesStr [] sub = (sub = [])"
| "includesStr (c # cs) sub = (prefix sub (c # cs) \<or> includesStr cs sub)"

fun replaceFirst :: "jsstring \<Rightarrow> jsstring \<Rightarrow> jsstring \<Rightarrow> jsstring" where
  "replaceFirst [] sub rep = (if sub = [] then rep else [])"
| "replaceFirst (c # cs) sub rep =
     (if prefix sub (c # cs) then rep @ drop (length sub) (c # cs)
      else c # replaceFirst cs sub rep)"

text \<open>
  The ink cell. In the block renderer (\<open>createJapaneseBlock\<close>) the literal is the one
  code unit U+2588. In \<open>japanese-renderer.ts\<close> the literal of the font parser and of
  every pattern row is the three code units U+201A U+0116 U+0105, and
  \<open>line.replace(/#/g, cell)\<close> puts these three units for every \<open>#\<close>.
\<close>

definition ink :: unit16 where
  "ink = 0x2588"

definition blank :: unit16 where
  "blank = 0x20"

definition inkCell :: jsstring where
  "inkCell = [0x201A, 0x0116, 0x0105]"

definition replaceHashes :: "jsstring \<Rightarrow> jsstring" where
  "replaceHashes line = concat (map (\<lambda>c. if c = 0x23 then inkCell else [c]) line)"

text \<open>
  \<open>toLowerCase\<close> as it acts on ASCII: the source applies it to hexadecimal tokens and
  to the output of \<open>toString(16)\<close> only.
\<close>

definition toLowerCase :: "jsstring \<Rightarrow> jsstring" where
  "toLowerCase s = map (\<lambda>c. if 0x41 \<le> c \<and> c \<le> 0x5A then c + 0x20 else c) s"

text \<open>\<open>s.padStart(n, c)\<close> with a one-unit pad string.\<close>

definition padStart :: "nat \<Rightarrow> unit16 \<Rightarrow> jsstring \<Rightarrow> jsstring" where
  "padStart n c s = replicate (n - length s) c @ s"

text \<open>\<open>unit.repeat(n)\<close> for a one-unit string is \<open>replicate n unit\<close>.\<close>

section \<open>The glyph font store: parseJisFontData\<close>

text \<open>
  \<open>jisCharacterMap\<close> is a \<open>Map\<close> from hex strings to glyph strings; an association
  list in insertion order, \<open>set\<close> replacing the value of a key that is present.
\<close>

type_synonym font_map = "(jsstring \<times> jsstring) list"

definition mapHas :: "font_map \<Rightarrow> jsstring \<Rightarrow> bool" where
  "mapHas m k = (map_of m k \<noteq> None)"

definition mapGet :: "font_map \<Rightarrow> jsstring \<Rightarrow> jsstring option" where
  "mapGet m k = map_of m k"

definition mapSet :: "jsstring \<Rightarrow> jsstring \<Rightarrow> font_map \<Rightarrow> font_map" where
  "mapSet k v m = AList.update k v m"

definition isDigit :: "unit16 \<Rightarrow> bool" where
  "isDigit c = (0x30 \<le> c \<and> c \<le> 0x39)"

definition isHexDigit :: "unit16 \<Rightarrow> bool" where
  "isHexDigit c = (isDigit c \<or> (0x61 \<le> c \<and> c \<le> 0x66) \<or> (0x41 \<le> c \<and> c \<le> 0x46))"

text \<open>
  \<open>line.match(/^(\d+) ([0-9a-fA-F]+)$/)\<close>: one or more decimal digits, one space, one
  or more hexadecimal digits, and nothing else. A digit is not a space, so the first
  group is the whole leading run of digits. The result holds the two groups.
\<close>

definition matchHeader :: "jsstring \<Rightarrow> (jsstring \<times> jsstring) option" where
  "matchHeader line =
     (let digits = takeWhile isDigit line in
      case dropWhile isDigit line of
        [] \<Rightarrow> None
      | sp # hex \<Rightarrow>
          if digits \<noteq> [] \<and> sp = blank \<and> hex \<noteq> [] \<and> list_all isHexDigit hex
          then Some (digits, hex) else None)"

text \<open>
  The inner loop, from the line after a header: it reads lines up to the first one
  that includes \<open>@@\<close>. It returns the glyph lines and the lines from where the index
  stands when the loop is left (on the end line after \<open>break\<close>, past the last line
  otherwise).
\<close>

fun readGlyph :: "jsstring list \<Rightarrow> jsstring list \<Rightarrow> jsstring list \<times> jsstring list" where
  "readGlyph [] glyphLines = (glyphLines, [])"
| "readGlyph (glyphLine # ls) glyphLines =
     (if includesStr glyphLine [0x40, 0x40]
      then (glyphLines @ [replaceFirst glyphLine [0x24, 0x40, 0x40] []], glyphLine # ls)
      else if includesStr glyphLine [0x24, 0x40]
      then readGlyph ls (glyphLines @ [replaceFirst glyphLine [0x24, 0x40] []])
      else readGlyph ls glyphLines)"

text \<open>
  The outer loop. After an entry the index moves one line on (past the end line);
  a line that is no header is skipped. \<open>parseInt(match[1], 10)\<close> is computed and never
  used.
\<close>

function parseEntries :: "jsstring list \<Rightarrow> font_map \<Rightarrow> font_map" where
  "parseEntries [] m = m"
| "parseEntries (l # ls) m =
     (case matchHeader (trim l) of
        Some (decimal, hex) \<Rightarrow>
          (let hexCode = toLowerCase hex;
               r = readGlyph ls [];
               glyphLines = fst r
           in parseEntries (drop 1 (snd r))
                (if length glyphLines > 0
                 then mapSet hexCode (joinLines (map replaceHashes glyphLines)) m
                 else m))
      | None \<Rightarrow> parseEntries ls m)"
  by pat_completeness auto
termination
proof (relation "measure (\<lambda>(ls, m). length ls)")
  show "wf (measure (\<lambda>(ls, m). length ls))" by simp
next
  fix l :: jsstring and ls :: "jsstring list" and m :: font_map
    and x2 x y xa xb xc
  have rest: "length (snd (readGlyph ks acc)) \<le> length ks" for ks acc
    by (induction ks arbitrary: acc) (auto intro: le_SucI)
  assume "xb = readGlyph ls []"
  then have "length (drop 1 (snd xb)) \<le> length ls"
    using rest [of ls "[]"] by simp
  then show "((drop 1 (snd xb), if 0 < length xc then mapSet xa (joinLines (map replaceHashes xc)) m else m),
              l # ls, m) \<in> measure (\<lambda>(ls, m). length ls)"
    by simp
next
  fix l :: jsstring and ls :: "jsstring list" and m :: font_map
  show "((ls, m), l # ls, m) \<in> measure (\<lambda>(ls, m). length ls)" by simp
qed

text \<open>
  \<open>parseJisFontData\<close>: skip the lines before the first one that matches the header
  pattern (untrimmed), then parse entries into the module's map, empty at that time.
\<close>

definition parseJisFontData :: "jsstring \<Rightarrow> font_map" where
  "parseJisFontData fontData =
     parseEntries (dropWhile (\<lambda>l. matchHeader l = None) (splitLines fontData)) []"

section \<open>The codepoint resolver: unicodeToJisHexCode\<close>

text \<open>
  The conversion libraries \<open>jconv\<close> and \<open>encoding-japanese\<close> are not part of the
  program; they are parameters. A call can throw, return a nullish value, or return
  a value: \<open>jconv.encode\<close> a \<open>Buffer\<close> (bytes), \<open>Encoding.convert\<close> on an array of
  code units an array of integers.
\<close>

datatype js_error = TypeError

datatype encoding = JIS | SJIS | JISX0208

datatype 'a outcome = Throws | Nullish | Value 'a

record libs =
  jconv_encode :: "jsstring \<Rightarrow> encoding \<Rightarrow> (8 word list) outcome"
  encoding_convert :: "int list \<Rightarrow> encoding \<Rightarrow> (int list) outcome"

text \<open>\<open>n.toString(16)\<close> on an integer: lower-case digits, no leading zero, a minus
  sign before the digits of a negative number.\<close>

definition hexDigit :: "nat \<Rightarrow> unit16" where
  "hexDigit d = (if d < 10 then of_nat (48 + d) else of_nat (87 + d))"

fun hexDigits :: "nat \<Rightarrow> jsstring" where
  "hexDigits n = (if n < 16 then [hexDigit n] else hexDigits (n div 16) @ [hexDigit (n mod 16)])"

declare hexDigits.simps [simp del]

definition toString16 :: "int \<Rightarrow> jsstring" where
  "toString16 v = (if v < 0 then 0x2D # hexDigits (nat (- v)) else hexDigits (nat v))"

text \<open>
  \<open>((b1 << 8) | b2).toString(16).toLowerCase().padStart(4, '0')\<close>. The shift and the
  bitwise or work on the operands as 32-bit integers and give a signed 32-bit integer.
\<close>

definition shiftOr :: "int \<Rightarrow> int \<Rightarrow> int" where
  "shiftOr b1 b2 = sint (push_bit 8 (word_of_int b1 :: 32 word) OR word_of_int b2)"

definition hexCodeOf :: "int \<Rightarrow> int \<Rightarrow> jsstring" where
  "hexCodeOf b1 b2 = padStart 4 0x30 (toLowerCase (toString16 (shiftOr b1 b2)))"

text \<open>The loop over \<open>['JISX0208', 'SJIS']\<close>, each call in a \<open>try\<close> of its own.\<close>

fun tryConversions :: "libs \<Rightarrow> font_map \<Rightarrow> int list \<Rightarrow> encoding list \<Rightarrow> jsstring option" where
  "tryConversions L m codes [] = None"
| "tryConversions L m codes (enc # encs) =
     (case encoding_convert L codes enc of
        Value convertedArray \<Rightarrow>
          if length convertedArray \<ge> 2
             \<and> mapHas m (hexCodeOf (convertedArray ! 0) (convertedArray ! 1))
          then Some (hexCodeOf (convertedArray ! 0) (convertedArray ! 1))
          else tryConversions L m codes encs
      | Nullish \<Rightarrow> tryConversions L m codes encs
      | Throws \<Rightarrow> tryConversions L m codes encs)"

text \<open>
  \<open>unicodeToJisHexCode\<close>. The two \<open>jconv\<close> calls stand in the outer \<open>try\<close>, whose
  \<open>catch\<close> returns \<open>null\<close>.
\<close>

definition jisCandidate :: "8 word list \<Rightarrow> jsstring option" where
  "jisCandidate jisBytes =
     (if length jisBytes \<ge> 5 then Some (hexCodeOf (uint (jisBytes ! 3)) (uint (jisBytes ! 4)))
      else None)"

definition sjisCandidate :: "8 word list \<Rightarrow> jsstring option" where
  "sjisCandidate sjisBytes =
     (if length sjisBytes \<ge> 2 then Some (hexCodeOf (uint (sjisBytes ! 0)) (uint (sjisBytes ! 1)))
      else None)"

definition hit :: "font_map \<Rightarrow> jsstring option \<Rightarrow> bool" where
  "hit m cand = (case cand of None \<Rightarrow> False | Some hexCode \<Rightarrow> mapHas m hexCode)"

definition fallbackLibrary :: "libs \<Rightarrow> font_map \<Rightarrow> jsstring \<Rightarrow> jsstring option" where
  "fallbackLibrary L m char = tryConversions L m (map uint char) [JISX0208, SJIS]"

definition trySjis :: "libs \<Rightarrow> font_map \<Rightarrow> jsstring \<Rightarrow> jsstring option" where
  "trySjis L m char =
     (case jconv_encode L char SJIS of
        Throws \<Rightarrow> None
      | Nullish \<Rightarrow> fallbackLibrary L m char
      | Value sjisBytes \<Rightarrow>
          if hit m (sjisCandidate sjisBytes) then sjisCandidate sjisBytes
          else fallbackLibrary L m char)"

definition unicodeToJisHexCode :: "libs \<Rightarrow> font_map \<Rightarrow> jsstring \<Rightarrow> jsstring option" where
  "unicodeToJisHexCode L m char =
     (case jconv_encode L char JIS of
        Throws \<Rightarrow> None
      | Nullish \<Rightarrow> trySjis L m char
      | Value jisBytes \<Rightarrow>
          if hit m (jisCandidate jisBytes) then jisCandidate jisBytes
          else trySjis L m char)"

section \<open>The module state and renderJisCharacter\<close>

text \<open>
  The module reads the font file once when it is loaded; when that fails
  \<open>jisFontData\<close> stays \<open>null\<close> and the map stays empty.
\<close>

record module_state =
  jisFontData :: "jsstring option"
  jisCharacterMap :: font_map

definition loadModule :: "jsstring option \<Rightarrow> module_state" where
  "loadModule file =
     (case file of
        None \<Rightarrow> \<lparr>jisFontData = None, jisCharacterMap = []\<rparr>
      | Some fontData \<Rightarrow>
          \<lparr>jisFontData = Some fontData, jisCharacterMap = parseJisFontData fontData\<rparr>)"

text \<open>\<open>!jisFontData || jisCharacterMap.size === 0\<close>; the empty string is falsy.\<close>

definition fontUnavailable :: "module_state \<Rightarrow> bool" where
  "fontUnavailable st =
     ((case jisFontData st of None \<Rightarrow> True | Some fontData \<Rightarrow> fontData = [])
      \<or> length (jisCharacterMap st) = 0)"

definition renderJisCharacter :: "libs \<Rightarrow> module_state \<Rightarrow> jsstring \<Rightarrow> jsstring option" where
  "renderJisCharacter L st char =
     (if fontUnavailable st then None
      else case unicodeToJisHexCode L (jisCharacterMap st) char of
             None \<Rightarrow> None
           | Some jisHexCode \<Rightarrow>
               if jisHexCode = [] then None
               else case mapGet (jisCharacterMap st) jisHexCode of
                      None \<Rightarrow> None
                    | Some glyphData \<Rightarrow> if glyphData = [] then None else Some glyphData)"

section \<open>The placeholder patterns: getJapaneseCharPattern\<close>

text \<open>
  The table of \<open>getJapaneseCharPattern\<close>, as the file has it. A row is written here
  with \<open>#\<close> for the three code units of the ink cell and a space for a blank, so a
  row of twelve cells has between 16 and 28 code units. The 19 keys are the literal
  property names of the file by code unit, three units each. \<open>patterns[char]\<close> is
  looked up for an element of \<open>Array.from\<close>, which has one or two code units.
\<close>

definition art :: "string \<Rightarrow> jsstring" where
  "art s = concat (map (\<lambda>c. if c = CHR ''#'' then inkCell else [blank]) s)"

definition patterns :: "(jsstring \<times> jsstring list) list" where
  "patterns = [
   ([0x201E, 0x0100, 0x0101], map art
       [''  ########  '',
        '' #        # '',
        ''#   ####   #'',
        ''#  #    #  #'',
        ''#  # ####  #'',
        ''#  # #  #  #'',
        ''#  # ####  #'',
        ''#          #'',
        '' #        # '',
        ''  ########  '']),
   ([0x201E, 0x0100, 0x0104], map art
       [''  ########  '',
        '' #        # '',
        ''#    ##    #'',
        ''#    ##    #'',
        ''#    ##    #'',
        ''#  ######  #'',
        ''#  ##  ##  #'',
        ''#    ##    #'',
        '' #        # '',
        ''  ########  '']),
   ([0x201E, 0x0100, 0x00DC], map art
       [''  ########  '',
        '' #        # '',
        ''#  ######  #'',
        ''#    ##    #'',
        ''#    ##    #'',
        ''#  ######  #'',
        ''#  ##  ##  #'',
        ''#  ######  #'',
        '' #        # '',
        ''  ########  '']),
   ([0x201E, 0x0100, 0x0105], map art
       [''  ########  '',
        '' #        # '',
        ''# ######## #'',
        ''# ##    ## #'',
        ''# ######## #'',
        ''# ##    ## #'',
        ''# ######## #'',
        ''#          #'',
        '' #        # '',
        ''  ########  '']),
   ([0x201E, 0x0100, 0x00E4], map art
       [''  ########  '',
        '' #        # '',
        ''# ###### # #'',
        ''# ##  ## # #'',
        ''# ###### # #'',
        ''# ##     # #'',
        ''# ######## #'',
        ''#          #'',
        '' #        # '',
        ''  ########  '']),
   ([0x201E, 0x0100, 0x010F], map art
       [''  ########  '',
        '' #        # '',
        ''# ######## #'',
        ''#          #'',
        ''#   ####   #'',
        ''#          #'',
        ''# ######## #'',
        ''#          #'',
        '' #        # '',
        ''  ########  '']),
   ([0x201E, 0x0101, 0x010F], map art
       [''  ########  '',
        '' #        # '',
        ''#   ####   #'',
        ''#  #    #  #'',
        ''#  #    #  #'',
        ''#  # ## #  #'',
        ''#   ####   #'',
        ''#    ##    #'',
        '' #        # '',
        ''  ########  '']),
   ([0x201E, 0x0100, 0x0119], map art
       [''  ########  '',
        '' #        # '',
        ''#    ##    #'',
        ''#    ##    #'',
        ''# ######## #'',
        ''#    ##    #'',
        ''#  ######  #'',
        ''#          #'',
        '' #        # '',
        ''  ########  '']),
   ([0x201E, 0x0100, 0x00B0], map art
       [''  ########  '',
        '' #        # '',
        ''#  ######  #'',
        ''#     ##   #'',
        ''#     ##   #'',
        ''#   ###### #'',
        ''#     ##   #'',
        ''#   ###### #'',
        '' #        # '',
        ''  ########  '']),
   ([0x201E, 0x0100, 0x012E], map art
       [''  ########  '',
        '' #        # '',
        ''# ##  ##   #'',
        ''# ##  ##   #'',
        ''# ######## #'',
        ''# ##  ##   #'',
        ''# ##  #### #'',
        ''# ##    ## #'',
        '' #        # '',
        ''  ########  '']),
   ([0x0161, 0x0142, 0x0116], map art
       [''  ########  '',
        '' #        # '',
        ''#  #####   #'',
        ''#  #   #   #'',
        ''# #######  #'',
        ''#  #   #   #'',
        ''#  #   #   #'',
        ''# ######## #'',
        '' #        # '',
        ''  ########  '']),
   ([0x00C1, 0x0113, 0x0106], map art
       [''  ########  '',
        '' #        # '',
        ''# ######## #'',
        ''# #  ##  # #'',
        ''# #  ##  # #'',
        ''# ######## #'',
        ''#    ##    #'',
        ''# ######## #'',
        '' #        # '',
        ''  ########  '']),
   ([0x015B, 0x00F3, 0x2022], map art
       [''  ########  '',
        '' #        # '',
        ''# ######## #'',
        ''# ##    ## #'',
        ''# ######## #'',
        ''# ##    ## #'',
        ''# ######## #'',
        ''#          #'',
        '' #        # '',
        ''  ########  '']),
   ([0x015B, 0x00FA, 0x00A8], map art
       [''  ########  '',
        '' #        # '',
        ''#    ##    #'',
        ''#    ##    #'',
        ''# ######## #'',
        ''#    ##    #'',
        ''#   ####   #'',
        ''#  ##  ##  #'',
        '' #        # '',
        ''  ########  '']),
   ([0x0164, 0x2122, 0x011B], map art
       [''  ########  '',
        '' #        # '',
        ''# ## ## ## #'',
        ''# ## ## ## #'',
        ''# ######## #'',
        ''# ##    ## #'',
        ''# ######## #'',
        ''# ##    ## #'',
        '' #        # '',
        ''  ########  '']),
   ([0x201E, 0x0100, 0x0123], map art
       [''  ########  '',
        '' #        # '',
        ''#   ####   #'',
        ''#  #    #  #'',
        ''#  # ## #  #'',
        ''#  # ## #  #'',
        ''#   ####   #'',
        ''#          #'',
        '' #        # '',
        ''  ########  '']),
   ([0x201E, 0x00C9, 0x00DC], map art
       [''  ########  '',
        '' #        # '',
        ''# ######## #'',
        ''#    ##    #'',
        ''#    ##    #'',
        ''#    ##    #'',
        ''#    ##    #'',
        ''#    ##    #'',
        '' #        # '',
        ''  ########  '']),
   ([0x201E, 0x0101, 0x013B], map art
       [''  ########  '',
        '' #        # '',
        ''#  ######  #'',
        ''#     ##   #'',
        ''#    ##    #'',
        ''#   ##     #'',
        ''#  ##      #'',
        ''# ######   #'',
        '' #        # '',
        ''  ########  '']),
   ([0x201E, 0x00C9, 0x0105], map art
       [''  ########  '',
        '' #        # '',
        ''#   ####   #'',
        ''#    ##    #'',
        ''#    ##    #'',
        ''#    ##    #'',
        ''#    ##    #'',
        ''#   ####   #'',
        '' #        # '',
        ''  ########  ''])]"

definition genericPattern :: "jsstring \<Rightarrow> jsstring list" where
  "genericPattern char =
     [art ''  ########  '',
      art '' #        # '',
      art ''#   ####   #'',
      art ''#  #    #  #'',
      art ''#  # '' @ char @ art ''  #  #'',
      art ''#  #    #  #'',
      art ''#   ####   #'',
      art ''#          #'',
      art '' #        # '',
      art ''  ########  '']"

definition getJapaneseCharPattern :: "jsstring \<Rightarrow> jsstring list" where
  "getJapaneseCharPattern char =
     (case map_of patterns char of Some pattern \<Rightarrow> pattern | None \<Rightarrow> genericPattern char)"

section \<open>Composition: createJapaneseArt and renderJapaneseWithJisFont\<close>

text \<open>
  Both functions build a row of the canvas with the same inner loop: the cell of
  every glyph at that row, one space after each glyph but the last. They differ in
  the cell of a glyph that has no such row: \<open>allPatterns[i][row]\<close> is \<open>undefined\<close>,
  which \<open>+=\<close> appends as the text \<open>undefined\<close>; \<open>charLines[i][row] || ''\<close> is the
  empty string.
\<close>

definition rowOrUndefined :: "jsstring list \<Rightarrow> nat \<Rightarrow> jsstring" where
  "rowOrUndefined glyph row =
     (if row < length glyph then glyph ! row
      else [0x75, 0x6E, 0x64, 0x65, 0x66, 0x69, 0x6E, 0x65, 0x64])"

definition rowOrEmpty :: "jsstring list \<Rightarrow> nat \<Rightarrow> jsstring" where
  "rowOrEmpty glyph row = (if row < length glyph then glyph ! row else [])"

fun joinRow :: "(jsstring list \<Rightarrow> nat \<Rightarrow> jsstring) \<Rightarrow> jsstring list list \<Rightarrow> nat \<Rightarrow> jsstring" where
  "joinRow cell [] row = []"
| "joinRow cell [glyph] row = cell glyph row"
| "joinRow cell (glyph # glyphs) row = cell glyph row @ [blank] @ joinRow cell glyphs row"

text \<open>\<open>createJapaneseArt\<close> reads \<open>allPatterns[0].length\<close>: a \<open>TypeError\<close> when the text
  has no character.\<close>

definition createJapaneseArt :: "jsstring \<Rightarrow> js_error + jsstring list" where
  "createJapaneseArt text =
     (let chars = arrayFrom text;
          allPatterns = map getJapaneseCharPattern chars
      in case allPatterns of
           [] \<Rightarrow> Inl TypeError
         | first # _ \<Rightarrow> Inr (map (joinRow rowOrUndefined allPatterns) [0..<length first]))"

text \<open>The part of \<open>renderJapaneseWithJisFont\<close> that combines two or more rendered
  characters.\<close>

definition combineRendered :: "jsstring list \<Rightarrow> jsstring list" where
  "combineRendered renderedChars =
     (let charLines = map splitLines renderedChars;
          maxHeight = foldr max (map length charLines) 0
      in map (joinRow rowOrEmpty charLines) [0..<maxHeight])"

definition renderOneChar :: "libs \<Rightarrow> module_state \<Rightarrow> jsstring \<Rightarrow> jsstring" where
  "renderOneChar L st char =
     (case renderJisCharacter L st char of
        Some result \<Rightarrow>
          if result = [] then joinLines (getJapaneseCharPattern char) else result
      | None \<Rightarrow> joinLines (getJapaneseCharPattern char))"

definition renderJapaneseWithJisFont :: "libs \<Rightarrow> module_state \<Rightarrow> jsstring \<Rightarrow> jsstring option" where
  "renderJapaneseWithJisFont L st text =
     (if fontUnavailable st then None
      else let renderedChars = map (renderOneChar L st) (arrayFrom text)
           in if length renderedChars = 0 then None
              else if length renderedChars = 1 then Some (renderedChars ! 0)
              else Some (joinLines (combineRendered renderedChars)))"

section \<open>Colouring: renderJapaneseText\<close>

text \<open>
  \<open>gradient-string\<close> is a parameter: \<open>gradient(palette)\<close> is a function on a line,
  \<open>gradient(palette).multiline\<close> a function on a block. Its calls are taken to
  return a string (colour interpolation is a supplied pure function).
\<close>

type_synonym palette = "jsstring list"

record gradient_lib =
  gradient :: "palette \<Rightarrow> jsstring \<Rightarrow> jsstring"
  multiline :: "palette \<Rightarrow> jsstring \<Rightarrow> jsstring"

text \<open>
  The numbers of the diagonal shift are IEEE 754 doubles: \<open>/\<close>, \<open>*\<close> and \<open>+\<close> give
  the double nearest to the exact result, ties to the even significand. \<open>toDouble\<close>
  is that rounding on the non-negative rationals, without overflow and underflow
  (indices, line counts and palette lengths are integers far below \<open>2^53\<close>, and the
  quotient of two of them is far above the smallest normal double): \<open>binade x\<close> is
  the exponent \<open>e\<close> with \<open>2^e \<le> x < 2^(e+1)\<close>, and a double has 53 significant bits.
  \<open>Math.floor\<close> and \<open>%\<close> are exact on these numbers.
\<close>

fun bitLength :: "nat \<Rightarrow> nat" where
  "bitLength n = (if n = 0 then 0 else Suc (bitLength (n div 2)))"

declare bitLength.simps [simp del]

definition binade :: "rat \<Rightarrow> int" where
  "binade x =
     (let (p, q) = quotient_of x;
          k = int (bitLength (nat p)) - int (bitLength (nat q))
      in if power_int 2 k \<le> x then k else k - 1)"

definition roundTiesToEven :: "rat \<Rightarrow> int" where
  "roundTiesToEven x =
     (let f = \<lfloor>x\<rfloor>; d = x - of_int f
      in if d < 1 / 2 then f else if d > 1 / 2 then f + 1
         else if even f then f else f + 1)"

definition toDouble :: "rat \<Rightarrow> rat" where
  "toDouble x =
     (if x = 0 then 0
      else let ulp = power_int 2 (binade x - 52)
           in of_int (roundTiesToEven (x / ulp)) * ulp)"

definition jsDiv :: "rat \<Rightarrow> rat \<Rightarrow> rat" where
  "jsDiv a b = toDouble (a / b)"

definition jsMul :: "rat \<Rightarrow> rat \<Rightarrow> rat" where
  "jsMul a b = toDouble (a * b)"

definition jsAdd :: "rat \<Rightarrow> rat \<Rightarrow> rat" where
  "jsAdd a b = toDouble (a + b)"

text \<open>\<open>Math.floor(colorIndex + shift)\<close> with
  \<open>shift = (index / lineCount) * palette.length\<close>.\<close>

definition floorShift :: "nat \<Rightarrow> nat \<Rightarrow> nat \<Rightarrow> nat \<Rightarrow> nat" where
  "floorShift colorIndex index lineCount paletteLength =
     (let shift = jsMul (jsDiv (of_nat index) (of_nat lineCount)) (of_nat paletteLength)
      in nat \<lfloor>jsAdd (of_nat colorIndex) shift\<rfloor>)"

definition shiftedPalette :: "palette \<Rightarrow> nat \<Rightarrow> nat \<Rightarrow> palette" where
  "shiftedPalette palette index lineCount =
     map (\<lambda>colorIndex.
            palette ! (floorShift colorIndex index lineCount (length palette) mod length palette))
       [0..<length palette]"

definition horizontalLines :: "gradient_lib \<Rightarrow> palette \<Rightarrow> jsstring \<Rightarrow> jsstring list" where
  "horizontalLines G palette asciiArt =
     map (\<lambda>line. if trim line = [] then line else gradient G palette line)
       (splitLines asciiArt)"

definition diagonalLines :: "gradient_lib \<Rightarrow> palette \<Rightarrow> jsstring \<Rightarrow> jsstring list" where
  "diagonalLines G palette asciiArt =
     (let diagonalLines = splitLines asciiArt;
          lineCount = length diagonalLines
      in map (\<lambda>(line, index).
                if trim line = [] then line
                else gradient G (shiftedPalette palette index lineCount) line)
           (zip diagonalLines [0..<lineCount]))"

text \<open>The \<open>switch\<close> on the direction, \<open>vertical\<close> being the default case.\<close>

definition colorArt :: "gradient_lib \<Rightarrow> jsstring \<Rightarrow> palette \<Rightarrow> string \<Rightarrow> jsstring" where
  "colorArt G asciiArt palette direction =
     (if direction = ''horizontal'' then joinLines (horizontalLines G palette asciiArt)
      else if direction = ''diagonal'' then joinLines (diagonalLines G palette asciiArt)
      else multiline G palette asciiArt)"

definition asciiArtOf :: "libs \<Rightarrow> module_state \<Rightarrow> jsstring \<Rightarrow> js_error + jsstring" where
  "asciiArtOf L st text =
     (let fallback = (case createJapaneseArt text of
                        Inl err \<Rightarrow> Inl err
                      | Inr artLines \<Rightarrow> Inr (joinLines artLines))
      in case renderJapaneseWithJisFont L st text of
           None \<Rightarrow> fallback
         | Some asciiArt \<Rightarrow> if asciiArt = [] then fallback else Inr asciiArt)"

definition renderJapaneseText ::
    "libs \<Rightarrow> gradient_lib \<Rightarrow> module_state \<Rightarrow> jsstring \<Rightarrow> palette \<Rightarrow> string \<Rightarrow> js_error + jsstring" where
  "renderJapaneseText L G st text palette direction =
     (case asciiArtOf L st text of
        Inl err \<Rightarrow> Inl err
      | Inr asciiArt \<Rightarrow> Inr (colorArt G asciiArt palette direction))"

section \<open>Per-character blocks: createJapaneseBlock\<close>

text \<open>
  \<open>string-width\<close> is a parameter. \<open>stringWidth(char) || 1\<close> replaces a width of 0
  by 1.
\<close>

definition scale :: nat where
  "scale = 5"

definition charWidthOf :: "(jsstring \<Rightarrow> nat) \<Rightarrow> jsstring \<Rightarrow> nat" where
  "charWidthOf stringWidth char = (if stringWidth char = 0 then 1 else stringWidth char)"

definition blockWidthOf :: "(jsstring \<Rightarrow> nat) \<Rightarrow> jsstring \<Rightarrow> nat" where
  "blockWidthOf stringWidth char = max (charWidthOf stringWidth char * 3) 6"

text \<open>What one pass of the row loop appends to \<open>lines[row]\<close> for a character.\<close>

definition rowPiece :: "(jsstring \<Rightarrow> nat) \<Rightarrow> jsstring \<Rightarrow> nat \<Rightarrow> jsstring" where
  "rowPiece stringWidth char row =
     (let charWidth = charWidthOf stringWidth char;
          blockWidth = blockWidthOf stringWidth char
      in if row = 0 \<or> row = scale - 1 then replicate blockWidth ink
         else if row = scale div 2 then
           (let padding = max 0 (blockWidth - charWidth);
                leftPad = padding div 2;
                rightPad = padding - leftPad
            in replicate leftPad ink @ char @ replicate rightPad ink)
         else [ink] @ replicate (blockWidth - 2) blank @ [ink])"

definition appendChar :: "(jsstring \<Rightarrow> nat) \<Rightarrow> jsstring \<Rightarrow> bool \<Rightarrow> jsstring list \<Rightarrow> jsstring list" where
  "appendChar stringWidth char notLast lines =
     fold (\<lambda>row ls.
             ls[row := ls ! row @ rowPiece stringWidth char row
                         @ (if notLast then [blank, blank] else [])])
       [0..<scale] lines"

fun charLoop :: "(jsstring \<Rightarrow> nat) \<Rightarrow> jsstring list \<Rightarrow> jsstring list \<Rightarrow> jsstring list" where
  "charLoop stringWidth [] lines = lines"
| "charLoop stringWidth (char # rest) lines =
     charLoop stringWidth rest (appendChar stringWidth char (rest \<noteq> []) lines)"

definition blockLines :: "(jsstring \<Rightarrow> nat) \<Rightarrow> jsstring \<Rightarrow> jsstring list" where
  "blockLines stringWidth text = charLoop stringWidth (arrayFrom text) (replicate scale [])"

definition createJapaneseBlock :: "(jsstring \<Rightarrow> nat) \<Rightarrow> jsstring \<Rightarrow> jsstring" where
  "createJapaneseBlock stringWidth text = joinLines (blockLines stringWidth text)"

section \<open>The resolution chain in the words of the specification\<close>

text \<open>
  The specification describes resolution as an ordered list of schemes, each giving
  a candidate or a miss, evaluated left to right with an exit on the first candidate
  that is a key of the store; an error of one scheme is a miss of that scheme. A
  legacy codepoint is two bytes combined big-endian, written as four lower-case
  hexadecimal digits.
\<close>

definition bigEndian :: "nat \<Rightarrow> nat \<Rightarrow> nat" where
  "bigEndian hi lo = 256 * hi + lo"

definition hex4 :: "nat \<Rightarrow> jsstring" where
  "hex4 n = padStart 4 0x30 (hexDigits n)"

definition firstTwo :: "nat list \<Rightarrow> jsstring option" where
  "firstTwo payload =
     (case payload of hi # lo # _ \<Rightarrow> Some (hex4 (bigEndian hi lo)) | _ \<Rightarrow> None)"

definition schemeJis :: "libs \<Rightarrow> jsstring \<Rightarrow> jsstring option" where
  "schemeJis L char =
     (case jconv_encode L char JIS of
        Value bytes \<Rightarrow> firstTwo (drop 3 (map unat bytes))
      | _ \<Rightarrow> None)"

definition schemeSjis :: "libs \<Rightarrow> jsstring \<Rightarrow> jsstring option" where
  "schemeSjis L char =
     (case jconv_encode L char SJIS of
        Value bytes \<Rightarrow> firstTwo (map unat bytes)
      | _ \<Rightarrow> None)"

definition schemeSecondary :: "libs \<Rightarrow> encoding \<Rightarrow> jsstring \<Rightarrow> jsstring option" where
  "schemeSecondary L enc char =
     (case encoding_convert L (map uint char) enc of
        Value bytes \<Rightarrow> firstTwo (map nat bytes)
      | _ \<Rightarrow> None)"

text \<open>
  The candidate of the secondary library for one encoding as the body of the loop
  computes it, \<open>(a << 8) | b\<close> of the first two outputs whatever they are; an error
  and a nullish result give no candidate.
\<close>

definition convertedCandidate :: "libs \<Rightarrow> encoding \<Rightarrow> jsstring \<Rightarrow> jsstring option" where
  "convertedCandidate L enc char =
     (case encoding_convert L (map uint char) enc of
        Value convertedArray \<Rightarrow>
          if length convertedArray \<ge> 2
          then Some (hexCodeOf (convertedArray ! 0) (convertedArray ! 1)) else None
      | Nullish \<Rightarrow> None
      | Throws \<Rightarrow> None)"

fun firstHit :: "font_map \<Rightarrow> jsstring option list \<Rightarrow> jsstring option" where
  "firstHit m [] = None"
| "firstHit m (cand # cands) = (if hit m cand then cand else firstHit m cands)"

definition resolveChain :: "libs \<Rightarrow> font_map \<Rightarrow> jsstring \<Rightarrow> jsstring option" where
  "resolveChain L m char =
     firstHit m [schemeJis L char, schemeSjis L char,
                 schemeSecondary L JISX0208 char, schemeSecondary L SJIS char]"

text \<open>The characters of a legacy codepoint: lower-case hexadecimal digits.\<close>

definition isLowerHex :: "unit16 \<Rightarrow> bool" where
  "isLowerHex c = ((0x30 \<le> c \<and> c \<le> 0x39) \<or> (0x61 \<le> c \<and> c \<le> 0x66))"


definition isByte :: "int \<Rightarrow> bool" where
  "isByte v = (0 \<le> v \<and> v < 256)"

section \<open>Block mode in the words of the specification\<close>

text \<open>
  For a character of display width \<open>w\<close> the block is \<open>max (w * 3) 6\<close> columns wide
  and has five rows: a solid bar, a bordered row, the row with the character between
  ink padding (an odd remainder to the right), a bordered row, a solid bar. A row of
  the output is the rows of the blocks with two blank columns between neighbours.
\<close>

definition specBlock :: "nat \<Rightarrow> jsstring \<Rightarrow> jsstring list" where
  "specBlock w char =
     (let width = max (w * 3) 6;
          bar = replicate width ink;
          side = [ink] @ replicate (width - 2) blank @ [ink];
          pad = width - w;
          middle = replicate (pad div 2) ink @ char @ replicate ((pad + 1) div 2) ink
      in [bar, side, middle, side, bar])"

fun joinWith :: "jsstring \<Rightarrow> jsstring list \<Rightarrow> jsstring" where
  "joinWith sep [] = []"
| "joinWith sep [x] = x"
| "joinWith sep (x # xs) = x @ sep @ joinWith sep xs"

definition specBlockLines :: "(jsstring \<Rightarrow> nat) \<Rightarrow> jsstring \<Rightarrow> jsstring list" where
  "specBlockLines stringWidth text =
     map (\<lambda>row. joinWith [blank, blank]
                  (map (\<lambda>char. specBlock (charWidthOf stringWidth char) char ! row)
                     (arrayFrom text)))
       [0..<5]"

section \<open>The horizontal blend in the words of the specification\<close>

text \<open>
  A blank (whitespace-only) row passes through unmodified; every other row is
  blended left to right with the palette.
\<close>

definition horizontalBlend :: "gradient_lib \<Rightarrow> palette \<Rightarrow> jsstring \<Rightarrow> jsstring" where
  "horizontalBlend G palette line =
     (if list_all isWhiteSpace line then line else gradient G palette line)"

section \<open>containsJapanese\<close>

definition containsJapanese :: "jsstring \<Rightarrow> bool" where
  "containsJapanese text =
     list_ex (\<lambda>char.
        case charCodeAt0 char of
          None \<Rightarrow> False
        | Some code \<Rightarrow>
            (code \<ge> 0x3040 \<and> code \<le> 0x309F) \<or>
            (code \<ge> 0x30A0 \<and> code \<le> 0x30FF) \<or>
            (code \<ge> 0x4E00 \<and> code \<le> 0x9FFF))
       (arrayFrom text)"

text \<open>The ranges of the specification, on Unicode scalars.\<close>

definition inJapaneseRanges :: "nat \<Rightarrow> bool" where
  "inJapaneseRanges cp =
     ((0x3040 \<le> cp \<and> cp \<le> 0x309F) \<or> (0x30A0 \<le> cp \<and> cp \<le> 0x30FF) \<or>
      (0x4E00 \<le> cp \<and> cp \<le> 0x9FFF))"

section \<open>Example inputs\<close>

text \<open>
  Library behaviours, stores and texts at which the theorems below are instantiated.
  Hiragana A is U+3042; its JIS X 0208 code is 0x2422 (\<open>ESC $ B 24 22 ESC ( B\<close> in
  the 7-bit scheme) and its Shift-JIS code is 0x82A0.
\<close>

definition hiraganaA :: jsstring where
  "hiraganaA = [0x3042]"

text \<open>A \<open>jconv\<close> that throws on the JIS encoding and gives the Shift-JIS code.\<close>

definition libsJisThrows :: libs where
  "libsJisThrows =
     \<lparr>jconv_encode = (\<lambda>char enc. case enc of
          JIS \<Rightarrow> Throws
        | SJIS \<Rightarrow> Value [0x82, 0xA0]
        | JISX0208 \<Rightarrow> Nullish),
      encoding_convert = (\<lambda>codes enc. Nullish)\<rparr>"

text \<open>
  A \<open>jconv\<close> that gives the JIS code and throws on Shift-JIS, with a secondary
  library that knows the Shift-JIS code; a \<open>jconv\<close> that gives the JIS code and
  nothing for Shift-JIS, with a secondary library that returns one byte for JISX0208
  and the Shift-JIS code for SJIS; and a \<open>jconv\<close> that returns no bytes, with a
  secondary library that throws on JISX0208 and gives the Shift-JIS code for SJIS.
\<close>

definition libsSjisThrows :: libs where
  "libsSjisThrows =
     \<lparr>jconv_encode = (\<lambda>char enc. case enc of
          JIS \<Rightarrow> Value [0x1B, 0x24, 0x42, 0x24, 0x22, 0x1B, 0x28, 0x42]
        | SJIS \<Rightarrow> Throws
        | JISX0208 \<Rightarrow> Nullish),
      encoding_convert = (\<lambda>codes enc. case enc of
          SJIS \<Rightarrow> Value [0x82, 0xA0]
        | _ \<Rightarrow> Nullish)\<rparr>"

definition libsSecondary :: libs where
  "libsSecondary =
     \<lparr>jconv_encode = (\<lambda>char enc. case enc of
          JIS \<Rightarrow> Value [0x1B, 0x24, 0x42, 0x24, 0x22, 0x1B, 0x28, 0x42]
        | _ \<Rightarrow> Nullish),
      encoding_convert = (\<lambda>codes enc. case enc of
          JISX0208 \<Rightarrow> Value [0x24]
        | SJIS \<Rightarrow> Value [0x82, 0xA0]
        | JIS \<Rightarrow> Nullish)\<rparr>"

definition libsSecondaryThrows :: libs where
  "libsSecondaryThrows =
     \<lparr>jconv_encode = (\<lambda>char enc. Value []),
      encoding_convert = (\<lambda>codes enc. case enc of
          JISX0208 \<Rightarrow> Throws
        | SJIS \<Rightarrow> Value [0x82, 0xA0]
        | JIS \<Rightarrow> Nullish)\<rparr>"

text \<open>A store with one glyph under the key \<open>82a0\<close>, and one with one glyph under
  the key \<open>2424\<close>.\<close>

definition storeSjisA :: font_map where
  "storeSjisA = [([0x38, 0x32, 0x61, 0x30], inkCell)]"

definition storeJisI :: font_map where
  "storeJisI = [([0x32, 0x34, 0x32, 0x34], inkCell)]"

text \<open>A width function giving 2 columns to the kanji U+65E5 and 1 to everything
  else, and one giving 2 columns to everything.\<close>

definition widthKanji :: "jsstring \<Rightarrow> nat" where
  "widthKanji char = (if char = [0x65E5] then 2 else 1)"

definition widthTwo :: "jsstring \<Rightarrow> nat" where
  "widthTwo char = 2"


text \<open>
  A font file of two entries: \<open>1 2422\<close> with the one-row glyph \<open>#$@@\<close>, and
  \<open>2 2424\<close> with the two-row glyph \<open>#$@\<close>, \<open>#$@@\<close>; and a \<open>jconv\<close> that encodes
  hiragana A (U+3042) as JIS 0x2422 and hiragana I (U+3044) as JIS 0x2424.
\<close>

definition fontTwoHeights :: jsstring where
  "fontTwoHeights =
     [0x31, 0x20, 0x32, 0x34, 0x32, 0x32, 0x0A,
      0x23, 0x24, 0x40, 0x40, 0x0A,
      0x32, 0x20, 0x32, 0x34, 0x32, 0x34, 0x0A,
      0x23, 0x24, 0x40, 0x0A,
      0x23, 0x24, 0x40, 0x40]"

definition libsKana :: libs where
  "libsKana =
     \<lparr>jconv_encode = (\<lambda>char enc. case enc of
          JIS \<Rightarrow> if char = [0x3042] then Value [0x1B, 0x24, 0x42, 0x24, 0x22, 0x1B, 0x28, 0x42]
                 else if char = [0x3044] then Value [0x1B, 0x24, 0x42, 0x24, 0x24, 0x1B, 0x28, 0x42]
                 else Value []
        | SJIS \<Rightarrow> Nullish
        | JISX0208 \<Rightarrow> Nullish),
      encoding_convert = (\<lambda>codes enc. Nullish)\<rparr>"

text \<open>Two rendered characters of two rows each: \<open>ab\<close> over \<open>cd\<close>, and \<open>x\<close> over
  \<open>y\<close>.\<close>

definition glyphsSameHeight :: "jsstring list" where
  "glyphsSameHeight = [[0x61, 0x62, 0x0A, 0x63, 0x64], [0x78, 0x0A, 0x79]]"

text \<open>
  A font file of one entry, \<open>1 2422\<close>, whose glyph has a blank first row: the
  lines \<open>  $@\<close> (two spaces) and \<open>#$@@\<close>.
\<close>

definition fontBlankRow :: jsstring where
  "fontBlankRow =
     [0x31, 0x20, 0x32, 0x34, 0x32, 0x32, 0x0A,
      0x20, 0x20, 0x24, 0x40, 0x0A,
      0x23, 0x24, 0x40, 0x40]"

text \<open>
  A gradient library that marks what it colours: \<open>gradient(palette)(line)\<close> puts
  the palette's colours before the line, \<open>multiline\<close> puts an escape unit before
  every character of the block other than a newline, blanks included. A colour is
  written \<open>#rrggbb\<close>; \<open>cssColour k\<close> is the colour of the number \<open>k\<close>. A palette of
  three colours and one of 90 colours.
\<close>

definition markingLib :: gradient_lib where
  "markingLib =
     \<lparr>gradient = (\<lambda>palette line. concat palette @ line),
      multiline = (\<lambda>palette block.
                     concat (map (\<lambda>c. if c = newline then [c] else [0x1B, c]) block))\<rparr>"

definition cssColour :: "nat \<Rightarrow> jsstring" where
  "cssColour k = 0x23 # padStart 6 0x30 (hexDigits k)"

definition palette3 :: palette where
  "palette3 = [cssColour 0xFF0000, cssColour 0x00FF00, cssColour 0x0000FF]"

definition palette90 :: palette where
  "palette90 = map cssColour [0..<90]"

section \<open>containsJapanese: the claim C9\<close>

lemma arrayFrom_elems:
  "ch \<in> set (arrayFrom t) \<Longrightarrow>
     (\<exists>u. ch = [u]) \<or> (\<exists>u v. ch = [u, v] \<and> isHighSurrogate u \<and> isLowSurrogate v)"
  by (induction t rule: arrayFrom.induct) (auto split: if_splits)

lemma highSurrogate_unat: "isHighSurrogate u \<Longrightarrow> 0xD800 \<le> unat u \<and> unat u \<le> 0xDBFF"
  by (simp add: isHighSurrogate_def word_le_nat_alt)

lemma lowSurrogate_unat: "isLowSurrogate u \<Longrightarrow> 0xDC00 \<le> unat u \<and> unat u \<le> 0xDFFF"
  by (simp add: isLowSurrogate_def word_le_nat_alt)

lemma codePoint_test:
  assumes "ch \<in> set (arrayFrom t)"
  shows "(case charCodeAt0 ch of None \<Rightarrow> False
          | Some code \<Rightarrow> (code \<ge> 0x3040 \<and> code \<le> 0x309F) \<or>
              (code \<ge> 0x30A0 \<and> code \<le> 0x30FF) \<or> (code \<ge> 0x4E00 \<and> code \<le> 0x9FFF))
         = inJapaneseRanges (codePoint ch)"
proof -
  from arrayFrom_elems [OF assms] consider
    (single) u where "ch = [u]" |
    (pair) u v where "ch = [u, v]" "isHighSurrogate u" "isLowSurrogate v"
    by blast
  then show ?thesis
  proof cases
    case single
    then show ?thesis
      by (simp add: charCodeAt0_def codePoint_def inJapaneseRanges_def)
  next
    case pair
    from highSurrogate_unat [OF pair(2)] lowSurrogate_unat [OF pair(3)] pair(1)
    show ?thesis
      by (simp add: charCodeAt0_def codePoint_def inJapaneseRanges_def)
  qed
qed

lemma arrayFrom_units:
  "ch \<in> set (arrayFrom t) \<Longrightarrow> ch \<noteq> [] \<and> set ch \<subseteq> set t"
  by (induction t rule: arrayFrom.induct) (auto split: if_splits)

lemma below_ranges_no_test:
  assumes "\<forall>u \<in> set t. u < 0x3040" "ch \<in> set (arrayFrom t)"
  shows "\<not> inJapaneseRanges (codePoint ch)"
proof -
  from arrayFrom_units [OF assms(2)] obtain u us where ch: "ch = u # us" and "u \<in> set t"
    by (cases ch) auto
  with assms(1) have "u < 0x3040" by blast
  then have u: "unat u < 0x3040" by (simp add: word_less_nat_alt)
  have "charCodeAt0 ch = Some (unat u)" by (simp add: ch charCodeAt0_def)
  with u codePoint_test [OF assms(2)] show ?thesis by simp
qed

text \<open>
  C9. \<open>containsJapanese text\<close> holds exactly when some Unicode scalar of the text
  (an element of \<open>Array.from\<close>, surrogate pairs combined) lies in Hiragana
  U+3040..U+309F, Katakana U+30A0..U+30FF or CJK Unified Ideographs U+4E00..U+9FFF;
  it is false for every string whose code units all lie below U+3040 (ASCII and the
  Latin blocks), and for the empty string.
\<close>

theorem containsJapanese_iff_scalar_in_ranges:
  "(containsJapanese text \<longleftrightarrow>
      (\<exists>ch \<in> set (arrayFrom text). inJapaneseRanges (codePoint ch)))
   \<and> ((\<forall>u \<in> set text. u < 0x3040) \<longrightarrow> \<not> containsJapanese text)
   \<and> \<not> containsJapanese []"
proof -
  have scalar: "containsJapanese t \<longleftrightarrow>
      (\<exists>ch \<in> set (arrayFrom t). inJapaneseRanges (codePoint ch))" for t
    unfolding containsJapanese_def list_ex_iff
    using codePoint_test [of _ t] by blast
  have latin: "(\<forall>u \<in> set text. u < 0x3040) \<longrightarrow> \<not> containsJapanese text"
    using below_ranges_no_test [of "text"] by (auto simp: scalar)
  have empty: "\<not> containsJapanese []"
    by (simp add: containsJapanese_def)
  from scalar [of "text"] latin empty show ?thesis by blast
qed

text \<open>Witness: \<open>H\<close> followed by U+4E16 contains Japanese, \<open>He\<close> does not.\<close>

theorem containsJapanese_iff_scalar_in_ranges_witness:
  "containsJapanese [0x48, 0x4E16] \<and> inJapaneseRanges (codePoint [0x4E16])
   \<and> \<not> containsJapanese [0x48, 0x65]"
proof -
  have in_range: "inJapaneseRanges (codePoint [0x4E16])"
    by (simp add: inJapaneseRanges_def codePoint_def)
  have "[0x4E16] \<in> set (arrayFrom [0x48, 0x4E16])"
    by (simp add: isHighSurrogate_def)
  with in_range containsJapanese_iff_scalar_in_ranges [of "[0x48, 0x4E16]"]
  have yes: "containsJapanese [0x48, 0x4E16]" by blast
  have "\<forall>u \<in> set [0x48, 0x65 :: unit16]. u < 0x3040" by simp
  with containsJapanese_iff_scalar_in_ranges [of "[0x48, 0x65]"]
  have no: "\<not> containsJapanese [0x48, 0x65]" by blast
  from yes in_range no show ?thesis by blast
qed

section \<open>Legacy codepoints as hexadecimal strings\<close>

lemma or_shift_int:
  assumes "0 \<le> b" "b < 256"
  shows "push_bit 8 (a::int) OR b = 256 * a + b"
proof -
  have tb: "take_bit 8 b = b" using assms by (simp add: take_bit_int_eq_self)
  have "push_bit 8 a AND take_bit 8 b = 0"
    by (rule bit_eqI) (auto simp: bit_simps)
  then have "push_bit 8 a AND b = 0" by (simp add: tb)
  then have "push_bit 8 a + b = push_bit 8 a OR b" by (rule disjunctive_add_eq_or)
  then show ?thesis by (simp add: push_bit_eq_mult)
qed

lemma shiftOr_bytes:
  assumes "isByte a" "isByte b"
  shows "shiftOr a b = 256 * a + b"
proof -
  from assms have r: "0 \<le> a" "a < 256" "0 \<le> b" "b < 256" by (simp_all add: isByte_def)
  have eq: "push_bit 8 (word_of_int a) OR word_of_int b
              = (word_of_int (push_bit 8 a OR b) :: 32 word)"
    by (simp add: of_int_or_eq push_bit_of_int)
  have v: "push_bit 8 a OR b = 256 * a + b" using r by (simp add: or_shift_int)
  have "shiftOr a b = sint (word_of_int (256 * a + b) :: 32 word)"
    unfolding shiftOr_def eq v ..
  also have "\<dots> = signed_take_bit 31 (256 * a + b)"
    by (simp only: sint_sbintrunc') simp
  also have "\<dots> = 256 * a + b"
    using r by (simp add: signed_take_bit_int_eq_self)
  finally show ?thesis .
qed

lemma unat_hexDigit:
  assumes "d < 16"
  shows "unat (hexDigit d) = (if d < 10 then 48 + d else 87 + d)"
proof -
  have "unat (of_nat k :: unit16) = k" if "k < 65536" for k
    using that by (simp add: unat_of_nat take_bit_nat_eq_self)
  from this [of "48 + d"] this [of "87 + d"] assms show ?thesis
    by (simp add: hexDigit_def)
qed

lemma hexDigit_lower: "d < 16 \<Longrightarrow> isLowerHex (hexDigit d)"
  using unat_hexDigit [of d] by (simp add: isLowerHex_def word_le_nat_alt split: if_splits)

lemma hexDigits_lower: "list_all isLowerHex (hexDigits n)"
proof (induction n rule: hexDigits.induct)
  case (1 n)
  show ?case
  proof (cases "n < 16")
    case True
    then show ?thesis by (subst hexDigits.simps) (simp add: hexDigit_lower)
  next
    case False
    with 1 show ?thesis by (subst hexDigits.simps) (simp add: hexDigit_lower)
  qed
qed


lemma toLowerCase_lowerHex: "list_all isLowerHex s \<Longrightarrow> toLowerCase s = s"
proof -
  have "isLowerHex c \<Longrightarrow> \<not> (0x41 \<le> c \<and> c \<le> 0x5A)" for c
    by (auto simp: isLowerHex_def word_le_nat_alt)
  then show "list_all isLowerHex s \<Longrightarrow> toLowerCase s = s"
    by (induction s) (simp_all add: toLowerCase_def)
qed


lemma hexCodeOf_bytes:
  assumes "isByte a" "isByte b"
  shows "hexCodeOf a b = hex4 (bigEndian (nat a) (nat b))"
proof -
  from assms have "0 \<le> a" "0 \<le> b" by (simp_all add: isByte_def)
  then have "nat (256 * a + b) = bigEndian (nat a) (nat b)"
    by (simp add: bigEndian_def nat_add_distrib nat_mult_distrib)
  moreover have "\<not> 256 * a + b < 0" using \<open>0 \<le> a\<close> \<open>0 \<le> b\<close> by simp
  ultimately show ?thesis
    using hexDigits_lower [of "bigEndian (nat a) (nat b)"]
    by (simp add: hexCodeOf_def hex4_def shiftOr_bytes [OF assms] toString16_def
        toLowerCase_lowerHex)
qed

lemma isByte_uint: "isByte (uint (w :: 8 word))"
  using uint_lt2p [of w] by (simp add: isByte_def)


section \<open>The resolver: the claims C4 and C2\<close>

lemma firstTwo_nth:
  "firstTwo xs = (if length xs \<ge> 2 then Some (hex4 (bigEndian (xs ! 0) (xs ! 1))) else None)"
  by (auto simp: firstTwo_def split: list.splits)

lemma jisCandidate_spec: "jisCandidate bs = firstTwo (drop 3 (map unat bs))"
proof (cases "5 \<le> length bs")
  case True
  then have "2 \<le> length bs - 3" "3 < length bs" "4 < length bs" by arith+
  then show ?thesis
    using True by (simp add: jisCandidate_def firstTwo_nth hexCodeOf_bytes isByte_uint)
next
  case False
  then have "\<not> 2 \<le> length bs - 3" by arith
  with False show ?thesis by (simp add: jisCandidate_def firstTwo_nth)
qed

lemma sjisCandidate_spec: "sjisCandidate bs = firstTwo (map unat bs)"
proof (cases "2 \<le> length bs")
  case True
  then have "0 < length bs" "1 < length bs" by arith+
  then show ?thesis
    using True by (simp add: sjisCandidate_def firstTwo_nth hexCodeOf_bytes isByte_uint)
next
  case False
  then show ?thesis by (simp add: sjisCandidate_def firstTwo_nth)
qed

lemma hit_None: "\<not> hit m None"
  by (simp add: hit_def)

lemma hit_Some: "hit m (Some h) = mapHas m h"
  by (simp add: hit_def)

lemma tryConversions_firstHit:
  "tryConversions L m (map uint char) encs
     = firstHit m (map (\<lambda>enc. convertedCandidate L enc char) encs)"
proof (induction encs)
  case Nil
  show ?case by simp
next
  case (Cons enc encs)
  show ?case
    by (cases "encoding_convert L (map uint char) enc")
       (simp_all add: Cons convertedCandidate_def hit_None hit_Some)
qed

lemma convertedCandidate_bytes:
  assumes "\<forall>enc arr. encoding_convert L (map uint char) enc = Value arr \<longrightarrow> list_all isByte arr"
  shows "convertedCandidate L enc char = schemeSecondary L enc char"
proof (cases "encoding_convert L (map uint char) enc")
  case Throws
  then show ?thesis by (simp add: convertedCandidate_def schemeSecondary_def)
next
  case Nullish
  then show ?thesis by (simp add: convertedCandidate_def schemeSecondary_def)
next
  case (Value arr)
  with assms have bytes: "list_all isByte arr" by blast
  show ?thesis
  proof (cases "length arr \<ge> 2")
    case True
    then have len: "0 < length arr" "1 < length arr" by arith+
    with bytes have "isByte (arr ! 0)" "isByte (arr ! 1)" by (simp_all add: list_all_length)
    then have "hexCodeOf (arr ! 0) (arr ! 1) = hex4 (bigEndian (nat (arr ! 0)) (nat (arr ! 1)))"
      by (rule hexCodeOf_bytes)
    with True Value len show ?thesis
      by (simp add: convertedCandidate_def schemeSecondary_def firstTwo_nth)
  next
    case False
    with Value show ?thesis
      by (simp add: convertedCandidate_def schemeSecondary_def firstTwo_nth)
  qed
qed

lemma trySjis_cases:
  "trySjis L m char =
     (if jconv_encode L char SJIS = Throws then None
      else firstHit m [schemeSjis L char, convertedCandidate L JISX0208 char,
                       convertedCandidate L SJIS char])"
proof -
  have fb: "fallbackLibrary L m char
              = firstHit m [convertedCandidate L JISX0208 char, convertedCandidate L SJIS char]"
    by (simp only: fallbackLibrary_def tryConversions_firstHit list.map)
  show ?thesis
    by (cases "jconv_encode L char SJIS")
       (simp_all add: trySjis_def schemeSjis_def sjisCandidate_spec hit_None fb)
qed

lemma resolver_cases:
  "unicodeToJisHexCode L m char =
     (if jconv_encode L char JIS = Throws then None
      else if hit m (schemeJis L char) then schemeJis L char
      else trySjis L m char)"
  by (cases "jconv_encode L char JIS")
     (simp_all add: unicodeToJisHexCode_def schemeJis_def jisCandidate_spec hit_None)

lemma hex4_2422: "hex4 (bigEndian 0x24 0x22) = [0x32, 0x34, 0x32, 0x32]"
  by (simp add: hex4_def bigEndian_def padStart_def hexDigits.simps hexDigit_def)

lemma hex4_82a0: "hex4 (bigEndian 0x82 0xA0) = [0x38, 0x32, 0x61, 0x30]"
  by (simp add: hex4_def bigEndian_def padStart_def hexDigits.simps hexDigit_def)

lemma hexCodeOf_82a0: "hexCodeOf 0x82 0xA0 = [0x38, 0x32, 0x61, 0x30]"
  by (simp add: hexCodeOf_bytes isByte_def hex4_82a0)

text \<open>
  C4, with the setting it holds in. When no \<open>jconv\<close> call that the resolver makes
  throws (the JIS call, and the Shift-JIS call once JIS has missed) and the secondary
  library returns bytes, the resolver returns what the chain of the specification
  returns: the schemes (a) JIS, the payload after the three-byte escape prefix, bytes
  3 and 4 combined big-endian, (b) Shift-JIS, bytes 0 and 1, (c) the secondary
  library for JISX0208 and then SJIS, the first two bytes; in this order, a scheme
  hitting only when its codepoint is a key of the store, and unresolved when all
  miss.
\<close>

theorem resolver_tries_schemes_in_order:
  assumes "jconv_encode L char JIS \<noteq> Throws"
    and "\<not> hit m (schemeJis L char) \<Longrightarrow> jconv_encode L char SJIS \<noteq> Throws"
    and "\<forall>enc arr. encoding_convert L (map uint char) enc = Value arr \<longrightarrow> list_all isByte arr"
  shows "unicodeToJisHexCode L m char = resolveChain L m char"
proof (cases "hit m (schemeJis L char)")
  case True
  with assms(1) show ?thesis by (simp add: resolver_cases resolveChain_def)
next
  case False
  with assms(2) have "jconv_encode L char SJIS \<noteq> Throws" .
  with False assms(1) show ?thesis
    by (simp add: resolver_cases trySjis_cases resolveChain_def
        convertedCandidate_bytes [OF assms(3)])
qed

text \<open>
  Witness: the JIS candidate \<open>2422\<close> is not in the store, \<open>jconv\<close> has nothing for
  Shift-JIS, the secondary library returns one byte for JISX0208 and the bytes 82 A0
  for SJIS. With the key \<open>82a0\<close> in the store the last scheme hits; with the store of
  the key \<open>2424\<close> all schemes miss.
\<close>

theorem resolver_tries_schemes_in_order_witness:
  "jconv_encode libsSecondary hiraganaA JIS \<noteq> Throws
   \<and> jconv_encode libsSecondary hiraganaA SJIS \<noteq> Throws
   \<and> encoding_convert libsSecondary (map uint hiraganaA) SJIS = Value [0x82, 0xA0]
   \<and> list_all isByte [0x82, 0xA0]
   \<and> schemeJis libsSecondary hiraganaA = Some [0x32, 0x34, 0x32, 0x32]
   \<and> schemeSjis libsSecondary hiraganaA = None
   \<and> schemeSecondary libsSecondary JISX0208 hiraganaA = None
   \<and> schemeSecondary libsSecondary SJIS hiraganaA = Some [0x38, 0x32, 0x61, 0x30]
   \<and> unicodeToJisHexCode libsSecondary storeSjisA hiraganaA = Some [0x38, 0x32, 0x61, 0x30]
   \<and> unicodeToJisHexCode libsSecondary storeJisI hiraganaA = None"
proof -
  have a: "jconv_encode libsSecondary hiraganaA JIS \<noteq> Throws"
    and b: "jconv_encode libsSecondary hiraganaA SJIS \<noteq> Throws"
    by (simp_all add: libsSecondary_def)
  have v: "encoding_convert libsSecondary (map uint hiraganaA) SJIS = Value [0x82, 0xA0]"
    by (simp add: libsSecondary_def)
  have c: "\<forall>enc arr. encoding_convert libsSecondary (map uint hiraganaA) enc = Value arr
             \<longrightarrow> list_all isByte arr"
    by (simp add: libsSecondary_def isByte_def split: encoding.splits)
  have bytes: "list_all isByte [0x82, 0xA0]" by (simp add: isByte_def)
  have j: "schemeJis libsSecondary hiraganaA = Some [0x32, 0x34, 0x32, 0x32]"
    using hex4_2422 by (simp add: schemeJis_def libsSecondary_def firstTwo_def)
  have s: "schemeSjis libsSecondary hiraganaA = None"
    by (simp add: schemeSjis_def libsSecondary_def)
  have x: "schemeSecondary libsSecondary JISX0208 hiraganaA = None"
    by (simp add: schemeSecondary_def libsSecondary_def firstTwo_def)
  have y: "schemeSecondary libsSecondary SJIS hiraganaA = Some [0x38, 0x32, 0x61, 0x30]"
    using hex4_82a0 by (simp add: schemeSecondary_def libsSecondary_def firstTwo_def)
  have hit: "resolveChain libsSecondary storeSjisA hiraganaA = Some [0x38, 0x32, 0x61, 0x30]"
    by (simp add: resolveChain_def j s x y hit_def mapHas_def storeSjisA_def)
  have miss: "resolveChain libsSecondary storeJisI hiraganaA = None"
    by (simp add: resolveChain_def j s x y hit_def mapHas_def storeJisI_def)
  from resolver_tries_schemes_in_order [OF a b c, of storeSjisA]
    resolver_tries_schemes_in_order [OF a b c, of storeJisI] hit miss
  have "unicodeToJisHexCode libsSecondary storeSjisA hiraganaA = Some [0x38, 0x32, 0x61, 0x30]"
    "unicodeToJisHexCode libsSecondary storeJisI hiraganaA = None"
    by simp_all
  with a b v bytes j s x y show ?thesis by simp
qed

text \<open>
  C4 as stated fails where \<open>jconv\<close> throws: here the JIS candidate \<open>2422\<close> is not a
  key of the store and the Shift-JIS call throws. The scheme (b) has not hit, and the
  secondary library would give the key \<open>82a0\<close> of the store; the code does not
  continue to it and returns unresolved.
\<close>

theorem resolver_skips_secondary_after_sjis_error:
  "schemeJis libsSjisThrows hiraganaA = Some [0x32, 0x34, 0x32, 0x32]
   \<and> mapHas storeSjisA [0x32, 0x34, 0x32, 0x32] = False
   \<and> jconv_encode libsSjisThrows hiraganaA SJIS = Throws
   \<and> schemeSecondary libsSjisThrows SJIS hiraganaA = Some [0x38, 0x32, 0x61, 0x30]
   \<and> mapHas storeSjisA [0x38, 0x32, 0x61, 0x30]
   \<and> resolveChain libsSjisThrows storeSjisA hiraganaA = Some [0x38, 0x32, 0x61, 0x30]
   \<and> unicodeToJisHexCode libsSjisThrows storeSjisA hiraganaA = None"
proof -
  have j: "schemeJis libsSjisThrows hiraganaA = Some [0x32, 0x34, 0x32, 0x32]"
    using hex4_2422 by (simp add: schemeJis_def libsSjisThrows_def firstTwo_def)
  have nj: "mapHas storeSjisA [0x32, 0x34, 0x32, 0x32] = False"
    by (simp add: mapHas_def storeSjisA_def)
  have t: "jconv_encode libsSjisThrows hiraganaA SJIS = Throws"
    by (simp add: libsSjisThrows_def)
  have s: "schemeSjis libsSjisThrows hiraganaA = None"
    by (simp add: schemeSjis_def libsSjisThrows_def)
  have x: "schemeSecondary libsSjisThrows JISX0208 hiraganaA = None"
    by (simp add: schemeSecondary_def libsSjisThrows_def)
  have y: "schemeSecondary libsSjisThrows SJIS hiraganaA = Some [0x38, 0x32, 0x61, 0x30]"
    using hex4_82a0 by (simp add: schemeSecondary_def libsSjisThrows_def firstTwo_def)
  have k: "mapHas storeSjisA [0x38, 0x32, 0x61, 0x30]"
    by (simp add: mapHas_def storeSjisA_def)
  have chain: "resolveChain libsSjisThrows storeSjisA hiraganaA = Some [0x38, 0x32, 0x61, 0x30]"
    by (simp add: resolveChain_def j s x y hit_Some hit_None nj k)
  have code: "unicodeToJisHexCode libsSjisThrows storeSjisA hiraganaA = None"
    by (simp add: resolver_cases j hit_Some nj trySjis_cases t)
  from j nj t y k chain code show ?thesis by simp
qed

text \<open>
  C2, as the code has it. The function returns a value in every case (it has no
  error result). An error of \<open>jconv\<close> is caught by the outer handler and ends the
  resolution: the character is unresolved, whatever the remaining schemes would
  give. An error of the secondary library is caught for that encoding alone: that
  encoding gives no candidate and the loop goes on with the next encoding. So the
  result is: unresolved when the JIS call throws; else the JIS candidate when it is
  a key of the store; else unresolved when the Shift-JIS call throws; else the first
  of the Shift-JIS candidate and the two candidates of the secondary library (none
  for an encoding that throws) that is a key of the store, unresolved when none is.
\<close>

theorem resolver_error_handling:
  "unicodeToJisHexCode L m char =
     (if jconv_encode L char JIS = Throws then None
      else if hit m (schemeJis L char) then schemeJis L char
      else if jconv_encode L char SJIS = Throws then None
      else firstHit m [schemeSjis L char, convertedCandidate L JISX0208 char,
                       convertedCandidate L SJIS char])
   \<and> (encoding_convert L (map uint char) enc = Throws \<longrightarrow>
        convertedCandidate L enc char = None
        \<and> tryConversions L m (map uint char) (enc # encs)
            = tryConversions L m (map uint char) encs)"
proof (intro conjI impI)
  show "unicodeToJisHexCode L m char =
     (if jconv_encode L char JIS = Throws then None
      else if hit m (schemeJis L char) then schemeJis L char
      else if jconv_encode L char SJIS = Throws then None
      else firstHit m [schemeSjis L char, convertedCandidate L JISX0208 char,
                       convertedCandidate L SJIS char])"
    by (simp only: resolver_cases trySjis_cases)
next
  assume "encoding_convert L (map uint char) enc = Throws"
  then show "convertedCandidate L enc char = None"
    by (simp add: convertedCandidate_def)
next
  assume "encoding_convert L (map uint char) enc = Throws"
  then show "tryConversions L m (map uint char) (enc # encs)
               = tryConversions L m (map uint char) encs"
    by simp
qed

text \<open>
  Witness: \<open>jconv\<close> returns no bytes, the secondary library throws for JISX0208 and
  returns the bytes 82 A0 for SJIS: the loop goes on after the error and the
  character resolves to the key \<open>82a0\<close>. And with \<open>jconv\<close> throwing on the JIS
  encoding the character is unresolved.
\<close>

theorem resolver_error_handling_witness:
  "encoding_convert libsSecondaryThrows (map uint hiraganaA) JISX0208 = Throws
   \<and> tryConversions libsSecondaryThrows storeSjisA (map uint hiraganaA) [JISX0208, SJIS]
       = tryConversions libsSecondaryThrows storeSjisA (map uint hiraganaA) [SJIS]
   \<and> unicodeToJisHexCode libsSecondaryThrows storeSjisA hiraganaA
       = Some [0x38, 0x32, 0x61, 0x30]
   \<and> jconv_encode libsJisThrows hiraganaA JIS = Throws
   \<and> unicodeToJisHexCode libsJisThrows storeSjisA hiraganaA = None"
proof -
  have t: "encoding_convert libsSecondaryThrows (map uint hiraganaA) JISX0208 = Throws"
    by (simp add: libsSecondaryThrows_def)
  note go = resolver_error_handling [of libsSecondaryThrows storeSjisA hiraganaA JISX0208 "[SJIS]",
      THEN conjunct2, THEN mp, OF t, THEN conjunct2]
  note res = resolver_error_handling [of libsSecondaryThrows storeSjisA hiraganaA JISX0208 "[]",
      THEN conjunct1]
  have j: "schemeJis libsSecondaryThrows hiraganaA = None"
    by (simp add: schemeJis_def libsSecondaryThrows_def firstTwo_def)
  have s: "schemeSjis libsSecondaryThrows hiraganaA = None"
    by (simp add: schemeSjis_def libsSecondaryThrows_def firstTwo_def)
  have x: "convertedCandidate libsSecondaryThrows JISX0208 hiraganaA = None"
    by (simp add: convertedCandidate_def libsSecondaryThrows_def)
  have y: "convertedCandidate libsSecondaryThrows SJIS hiraganaA = Some [0x38, 0x32, 0x61, 0x30]"
    using hexCodeOf_82a0 by (simp add: convertedCandidate_def libsSecondaryThrows_def)
  have nt: "jconv_encode libsSecondaryThrows hiraganaA JIS \<noteq> Throws"
    "jconv_encode libsSecondaryThrows hiraganaA SJIS \<noteq> Throws"
    by (simp_all add: libsSecondaryThrows_def)
  from res nt have r: "unicodeToJisHexCode libsSecondaryThrows storeSjisA hiraganaA
       = Some [0x38, 0x32, 0x61, 0x30]"
    by (simp add: j s x y hit_None hit_Some mapHas_def storeSjisA_def)
  have jt: "jconv_encode libsJisThrows hiraganaA JIS = Throws"
    by (simp add: libsJisThrows_def)
  from resolver_error_handling [of libsJisThrows storeSjisA hiraganaA JISX0208 "[]",
      THEN conjunct1] jt
  have n: "unicodeToJisHexCode libsJisThrows storeSjisA hiraganaA = None" by simp
  from t go r jt n show ?thesis by simp
qed

text \<open>
  C2 as stated fails: with \<open>jconv\<close> throwing on the JIS encoding, the Shift-JIS
  scheme would hit (the chain of the specification, which treats the error as a miss
  of that scheme, resolves the character to \<open>82a0\<close>), and the code returns
  unresolved without trying it.
\<close>

theorem resolver_stops_at_jconv_error:
  "unicodeToJisHexCode libsJisThrows storeSjisA hiraganaA = None
   \<and> resolveChain libsJisThrows storeSjisA hiraganaA = Some [0x38, 0x32, 0x61, 0x30]"
proof -
  have code: "unicodeToJisHexCode libsJisThrows storeSjisA hiraganaA = None"
    by (simp add: unicodeToJisHexCode_def libsJisThrows_def)
  have j: "schemeJis libsJisThrows hiraganaA = None"
    by (simp add: schemeJis_def libsJisThrows_def)
  have s: "schemeSjis libsJisThrows hiraganaA = Some [0x38, 0x32, 0x61, 0x30]"
    using hex4_82a0 by (simp add: schemeSjis_def libsJisThrows_def firstTwo_def)
  have "resolveChain libsJisThrows storeSjisA hiraganaA = Some [0x38, 0x32, 0x61, 0x30]"
    by (simp add: resolveChain_def j s hit_def mapHas_def storeSjisA_def)
  with code show ?thesis by simp
qed

section \<open>The empty text: the claim C1\<close>

text \<open>
  C1. For the empty text \<open>renderJapaneseWithJisFont\<close> returns \<open>null\<close> (whatever the
  font), so \<open>renderJapaneseText\<close> calls \<open>createJapaneseArt\<close>, which reads
  \<open>allPatterns[0].length\<close> of an empty array: the call raises a \<open>TypeError\<close> for
  every palette and direction, where the claim has an empty result.
\<close>

theorem renderJapaneseText_empty_raises:
  "renderJapaneseWithJisFont L st [] = None
   \<and> createJapaneseArt [] = Inl TypeError
   \<and> renderJapaneseText L G st [] palette direction = Inl TypeError"
  by (simp add: renderJapaneseText_def asciiArtOf_def renderJapaneseWithJisFont_def
      createJapaneseArt_def)


section \<open>Block mode: the claims C5 and C10\<close>

lemma upt_5: "[0..<5] = [0, 1, 2, 3, 4]"
  by (simp add: upt_rec)

lemma length_5:
  assumes "length (ls :: 'a list) = 5"
  obtains a b c d e where "ls = [a, b, c, d, e]"
  using assms by (auto simp: length_Suc_conv eval_nat_numeral)

lemma appendChar_rows:
  assumes "length lines = 5"
  shows "appendChar sw char notLast lines =
           map (\<lambda>row. lines ! row @ rowPiece sw char row
                        @ (if notLast then [blank, blank] else []))
             [0..<5]"
proof -
  from assms obtain a b c d e where "lines = [a, b, c, d, e]" by (rule length_5)
  then show ?thesis by (simp add: appendChar_def scale_def upt_5)
qed

lemma charLoop_rows:
  assumes "length lines = 5"
  shows "charLoop sw chars lines =
           map (\<lambda>row. lines ! row @ joinWith [blank, blank] (map (\<lambda>c. rowPiece sw c row) chars))
             [0..<5]"
  using assms
proof (induction chars arbitrary: lines)
  case Nil
  then obtain a b c d e where "lines = [a, b, c, d, e]" by (rule length_5)
  then show ?case by (simp add: upt_5)
next
  case (Cons char rest)
  have len: "length (appendChar sw char (rest \<noteq> []) lines) = 5"
    by (simp add: appendChar_rows [OF Cons.prems])
  have ih: "charLoop sw rest (appendChar sw char (rest \<noteq> []) lines) =
      map (\<lambda>row. appendChar sw char (rest \<noteq> []) lines ! row
                   @ joinWith [blank, blank] (map (\<lambda>c. rowPiece sw c row) rest))
        [0..<5]"
    by (rule Cons.IH [OF len])
  have jw: "joinWith [blank, blank] (x # map f rest)
              = x @ (if rest \<noteq> [] then [blank, blank] else []) @ joinWith [blank, blank] (map f rest)"
    for x and f :: "jsstring \<Rightarrow> jsstring"
    by (cases rest) simp_all
  have "charLoop sw (char # rest) lines
          = charLoop sw rest (appendChar sw char (rest \<noteq> []) lines)"
    by simp
  also have "\<dots> = map (\<lambda>row. lines ! row
                   @ joinWith [blank, blank] (map (\<lambda>c. rowPiece sw c row) (char # rest)))
        [0..<5]"
    unfolding ih by (simp add: appendChar_rows [OF Cons.prems] upt_5 jw del: joinWith.simps)
  finally show ?case .
qed

lemma rowPiece_spec:
  assumes "row < 5"
  shows "rowPiece sw char row = specBlock (charWidthOf sw char) char ! row"
proof -
  define w where "w = charWidthOf sw char"
  have pad: "max (w * 3) 6 - w - (max (w * 3) 6 - w) div 2 = (max (w * 3) 6 - w + 1) div 2"
    by arith
  from assms consider "row = 0" | "row = 1" | "row = 2" | "row = 3" | "row = 4" by arith
  then show ?thesis
    by cases
      (simp_all add: rowPiece_def specBlock_def blockWidthOf_def scale_def Let_def
        w_def [symmetric] pad)
qed

lemma replicate_small:
  "replicate 2 x = [x, x]" "replicate 3 x = [x, x, x]" "replicate 4 x = [x, x, x, x]"
  "replicate 6 x = [x, x, x, x, x, x]"
  by (simp_all add: numeral_eq_Suc)

lemma blockLines_rows:
  "blockLines sw text =
     map (\<lambda>row. joinWith [blank, blank] (map (\<lambda>c. rowPiece sw c row) (arrayFrom text)))
       [0..<5]"
  by (simp add: blockLines_def scale_def charLoop_rows upt_5)

text \<open>
  C5. The lines \<open>createJapaneseBlock\<close> joins are those of the specification: five
  rows; for every character, of display width \<open>w\<close> (\<open>stringWidth\<close> when that is
  positive), a block of \<open>max (w * 3) 6\<close> columns with solid bars in rows 0 and 4, the
  character in row 2 between ink padding whose odd cell goes to the right, bordered
  rows with blank interior otherwise; and two blank columns between the blocks of
  adjacent characters.
\<close>

theorem block_mode_layout:
  "blockLines stringWidth text = specBlockLines stringWidth text
   \<and> createJapaneseBlock stringWidth text = joinLines (specBlockLines stringWidth text)
   \<and> length (blockLines stringWidth text) = 5
   \<and> (0 < stringWidth char \<longrightarrow> charWidthOf stringWidth char = stringWidth char)"
proof -
  have "map (\<lambda>row. joinWith [blank, blank]
                    (map (\<lambda>c. rowPiece stringWidth c row) (arrayFrom text))) [0..<5]
          = specBlockLines stringWidth text"
    unfolding specBlockLines_def by (rule map_cong) (simp_all add: rowPiece_spec)
  then have eq: "blockLines stringWidth text = specBlockLines stringWidth text"
    by (simp only: blockLines_rows)
  have len: "length (blockLines stringWidth text) = 5"
    by (simp add: blockLines_rows)
  from eq len show ?thesis
    by (simp add: createJapaneseBlock_def charWidthOf_def)
qed

text \<open>Witness: the kanji U+65E5 (two columns) followed by \<open>x\<close> (one column).\<close>

theorem block_mode_layout_witness:
  "0 < widthKanji [0x65E5] \<and> charWidthOf widthKanji [0x65E5] = 2
   \<and> blockLines widthKanji [0x65E5, 0x78] =
       [[ink, ink, ink, ink, ink, ink, blank, blank, ink, ink, ink, ink, ink, ink],
        [ink, blank, blank, blank, blank, ink, blank, blank, ink, blank, blank, blank, blank, ink],
        [ink, ink, 0x65E5, ink, ink, blank, blank, ink, ink, 0x78, ink, ink, ink],
        [ink, blank, blank, blank, blank, ink, blank, blank, ink, blank, blank, blank, blank, ink],
        [ink, ink, ink, ink, ink, ink, blank, blank, ink, ink, ink, ink, ink, ink]]"
proof -
  have w: "0 < widthKanji [0x65E5]" by (simp add: widthKanji_def)
  have "specBlockLines widthKanji [0x65E5, 0x78] =
       [[ink, ink, ink, ink, ink, ink, blank, blank, ink, ink, ink, ink, ink, ink],
        [ink, blank, blank, blank, blank, ink, blank, blank, ink, blank, blank, blank, blank, ink],
        [ink, ink, 0x65E5, ink, ink, blank, blank, ink, ink, 0x78, ink, ink, ink],
        [ink, blank, blank, blank, blank, ink, blank, blank, ink, blank, blank, blank, blank, ink],
        [ink, ink, ink, ink, ink, ink, blank, blank, ink, ink, ink, ink, ink, ink]]"
  proof -
    have chars: "arrayFrom [0x65E5, 0x78] = [[0x65E5], [0x78]]"
      by (simp add: isHighSurrogate_def)
    have widths: "charWidthOf widthKanji [0x65E5] = 2" "charWidthOf widthKanji [0x78] = 1"
      by (simp_all add: charWidthOf_def widthKanji_def)
    show ?thesis
      unfolding specBlockLines_def chars
      by (simp add: widths specBlock_def upt_5 Let_def replicate_small)
  qed
  with w block_mode_layout [of widthKanji "[0x65E5, 0x78]" "[0x65E5]"]
  show ?thesis by (simp add: widthKanji_def)
qed

lemma length_rowPiece_border:
  "length (rowPiece sw char 0) = blockWidthOf sw char"
  by (simp add: rowPiece_def)

lemma length_rowPiece_middle:
  "length (rowPiece sw char 2) = blockWidthOf sw char - charWidthOf sw char + length char"
proof -
  have "charWidthOf sw char \<le> blockWidthOf sw char"
    by (simp add: blockWidthOf_def)
  then show ?thesis
    by (simp add: rowPiece_def scale_def Let_def)
qed

text \<open>
  C10, as the code has it. In the block of one character the border rows have
  \<open>blockWidth\<close> code units and the middle row has \<open>blockWidth - w\<close> cells of padding and
  the code units of the character: it is shorter than the border rows exactly when
  the character has fewer code units than display columns. In display columns the
  padding and the \<open>w\<close> columns of the character make up the block width.
\<close>

theorem middle_row_length:
  assumes "arrayFrom text = [char]"
  shows "length (blockLines sw text ! 0) = blockWidthOf sw char
   \<and> length (blockLines sw text ! 4) = blockWidthOf sw char
   \<and> length (blockLines sw text ! 2) = blockWidthOf sw char - charWidthOf sw char + length char
   \<and> (length (blockLines sw text ! 2) < length (blockLines sw text ! 0)
         \<longleftrightarrow> length char < charWidthOf sw char)
   \<and> (blockWidthOf sw char - charWidthOf sw char) + charWidthOf sw char = blockWidthOf sw char"
proof -
  have le: "charWidthOf sw char \<le> blockWidthOf sw char"
    by (simp add: blockWidthOf_def)
  have rows: "blockLines sw text ! 0 = rowPiece sw char 0"
    "blockLines sw text ! 4 = rowPiece sw char 4"
    "blockLines sw text ! 2 = rowPiece sw char 2"
    by (simp_all add: blockLines_rows assms upt_5)
  have four: "length (rowPiece sw char 4) = blockWidthOf sw char"
    by (simp add: rowPiece_def scale_def)
  from le show ?thesis
    unfolding rows by (auto simp: length_rowPiece_border length_rowPiece_middle four)
qed

text \<open>Witness: the kanji U+65E5, one code unit and two columns: five code units in
  the middle row, six in the border rows.\<close>

theorem middle_row_length_witness:
  "arrayFrom [0x65E5] = [[0x65E5]]
   \<and> length (blockLines widthTwo [0x65E5] ! 2) = 5
   \<and> length (blockLines widthTwo [0x65E5] ! 0) = 6"
proof -
  have a: "arrayFrom [0x65E5] = [[0x65E5]]" by simp
  from middle_row_length [OF a, of widthTwo] a show ?thesis
    by (simp add: blockWidthOf_def charWidthOf_def widthTwo_def)
qed

text \<open>
  C10 as stated fails for a character of two code units: a surrogate pair (here
  U+20000, a wide ideograph of the supplementary plane) of display width 2 gives a
  middle row of six code units, as many as the border rows.
\<close>

theorem middle_row_surrogate_pair_equal_length:
  "arrayFrom [0xD840, 0xDC00] = [[0xD840, 0xDC00]]
   \<and> widthTwo [0xD840, 0xDC00] = 2
   \<and> map length (blockLines widthTwo [0xD840, 0xDC00]) = [6, 6, 6, 6, 6]"
  by (simp add: blockLines_rows upt_5 rowPiece_def blockWidthOf_def charWidthOf_def
      widthTwo_def scale_def isHighSurrogate_def isLowSurrogate_def Let_def)


section \<open>Store keys and candidates: the claim C8\<close>




















section \<open>Uniform composition: the claim C3\<close>

lemma splitLines_nonempty: "splitLines s \<noteq> []"
  by (induction s) (auto split: list.splits)

lemma joinLines_Cons: "ls \<noteq> [] \<Longrightarrow> joinLines (l # ls) = l @ [newline] @ joinLines ls"
  by (cases ls) simp_all

lemma joinLines_splitLines: "joinLines (splitLines s) = s"
proof (induction s)
  case Nil
  show ?case by simp
next
  case (Cons c s)
  obtain l ls where sp: "splitLines s = l # ls"
    using splitLines_nonempty [of s] by (cases "splitLines s") auto
  show ?case
  proof (cases "c = newline")
    case True
    with Cons show ?thesis by (simp add: joinLines_Cons splitLines_nonempty)
  next
    case False
    with Cons sp show ?thesis by (cases ls) simp_all
  qed
qed

lemma joinRow_joinWith:
  "joinRow cell glyphs row = joinWith [blank] (map (\<lambda>g. cell g row) glyphs)"
  by (induction cell glyphs row rule: joinRow.induct) simp_all

lemma length_joinWith:
  "length (joinWith sep xs) = sum_list (map length xs) + (length xs - 1) * length sep"
  by (induction sep xs rule: joinWith.induct) simp_all

lemma foldr_max_Max:
  "xs \<noteq> [] \<Longrightarrow> foldr max xs (0::nat) = Max (set xs)"
proof (induction xs)
  case Nil
  then show ?case by simp
next
  case (Cons x xs)
  then show ?case by (cases "xs = []") simp_all
qed

lemma parse_fontTwoHeights:
  "parseJisFontData fontTwoHeights =
     [([0x32, 0x34, 0x32, 0x32], [0x201A, 0x0116, 0x0105]),
      ([0x32, 0x34, 0x32, 0x34], [0x201A, 0x0116, 0x0105, 0x0A, 0x201A, 0x0116, 0x0105])]"
  by (simp add: parseJisFontData_def fontTwoHeights_def newline_def matchHeader_def isDigit_def
      isHexDigit_def blank_def trim_def isWhiteSpace_def mapSet_def toLowerCase_def
      replaceHashes_def inkCell_def Let_def)

lemma pattern_heights: "\<forall>p \<in> set (map snd patterns). length p = 10"
  by (simp add: patterns_def)

lemma pattern_keys: "\<forall>k \<in> set (map fst patterns). length k = 3"
  by (simp add: patterns_def)

text \<open>No element of \<open>Array.from\<close> is a key of the table: the lookup of
  \<open>getJapaneseCharPattern\<close> finds nothing and the generic pattern is returned.\<close>

lemma getJapaneseCharPattern_generic:
  assumes "length char \<le> 2"
  shows "getJapaneseCharPattern char = genericPattern char"
proof -
  have "char \<notin> fst ` set patterns"
  proof
    assume "char \<in> fst ` set patterns"
    then have "char \<in> set (map fst patterns)" by simp
    with pattern_keys have "length char = 3" by (rule bspec)
    with assms show False by simp
  qed
  then have "map_of patterns char = None" by (simp add: map_of_eq_None_iff)
  then show ?thesis by (simp add: getJapaneseCharPattern_def)
qed


lemma combineRendered_height:
  assumes "renderedChars \<noteq> []"
  shows "length (combineRendered renderedChars)
           = Max (set (map length (map splitLines renderedChars)))"
  using assms by (simp add: combineRendered_def Let_def foldr_max_Max)

lemma combineRendered_row:
  assumes "row < length (combineRendered renderedChars)"
  shows "combineRendered renderedChars ! row
           = joinWith [blank] (map (\<lambda>g. if row < length g then g ! row else [])
                                 (map splitLines renderedChars))"
proof -
  from assms have "row < foldr max (map length (map splitLines renderedChars)) 0"
    by (simp add: combineRendered_def Let_def)
  then show ?thesis
    by (simp add: combineRendered_def Let_def joinRow_joinWith rowOrEmpty_def comp_def)
qed

lemma combineRendered_single: "combineRendered [g] = splitLines g"
proof -
  have "map (\<lambda>row. if row < length xs then xs ! row else []) [0..<length xs] = xs"
    for xs :: "jsstring list"
    by (rule nth_equalityI) simp_all
  moreover have "joinRow rowOrEmpty [gl] = (\<lambda>row. if row < length gl then gl ! row else [])"
    for gl
    by (rule ext) (simp add: rowOrEmpty_def)
  ultimately show ?thesis
    by (simp add: combineRendered_def Let_def)
qed

lemma arrayFrom_nonempty: "text \<noteq> [] \<Longrightarrow> arrayFrom text \<noteq> []"
  by (induction "text" rule: arrayFrom.induct) auto

lemma renderJapaneseWithJisFont_combine:
  assumes "\<not> fontUnavailable st" "text \<noteq> []"
  shows "renderJapaneseWithJisFont L st text
           = Some (joinLines (combineRendered (map (renderOneChar L st) (arrayFrom text))))"
proof -
  define rs where "rs = map (renderOneChar L st) (arrayFrom text)"
  from arrayFrom_nonempty [OF assms(2)] have ne: "rs \<noteq> []" by (simp add: rs_def)
  show ?thesis
  proof (cases "length rs = 1")
    case True
    then obtain g where g: "rs = [g]" by (cases rs) auto
    then show ?thesis
      using assms(1)
      by (simp add: renderJapaneseWithJisFont_def rs_def [symmetric] combineRendered_single
          joinLines_splitLines)
  next
    case False
    with ne assms(1) show ?thesis
      by (simp add: renderJapaneseWithJisFont_def rs_def [symmetric] Let_def)
  qed
qed

lemma length_getJapaneseCharPattern: "length (getJapaneseCharPattern char) = 10"
proof (cases "map_of patterns char")
  case None
  then show ?thesis by (simp add: getJapaneseCharPattern_def genericPattern_def)
next
  case (Some p)
  from map_of_SomeD [OF Some] have "snd (char, p) \<in> set (map snd patterns)"
    by (simp only: set_map) (rule imageI)
  with pattern_heights have "length p = 10" by (simp only: snd_conv)
  with Some show ?thesis by (simp add: getJapaneseCharPattern_def)
qed

lemma createJapaneseArt_rows:
  assumes "text \<noteq> []"
  shows "createJapaneseArt text
           = Inr (map (\<lambda>row. joinWith [blank]
                                (map (\<lambda>p. p ! row) (map getJapaneseCharPattern (arrayFrom text))))
                    [0..<10])"
proof -
  define ps where "ps = map getJapaneseCharPattern (arrayFrom text)"
  from arrayFrom_nonempty [OF assms] obtain p ps' where ps: "ps = p # ps'"
    by (cases ps) (auto simp: ps_def)
  have len: "\<forall>q \<in> set ps. length q = 10"
    by (auto simp: ps_def length_getJapaneseCharPattern)
  then have p: "length p = 10" by (simp add: ps)
  have cell: "map (\<lambda>g. rowOrUndefined g row) ps = map (\<lambda>g. g ! row) ps" if "row < 10" for row
    using that len by (simp add: rowOrUndefined_def)
  have "createJapaneseArt text
          = (case ps of [] \<Rightarrow> Inl TypeError
             | first # _ \<Rightarrow> Inr (map (joinRow rowOrUndefined ps) [0..<length first]))"
    by (simp add: createJapaneseArt_def Let_def ps_def split: list.splits)
  also have "\<dots> = Inr (map (joinRow rowOrUndefined ps) [0..<10])"
    by (simp add: ps p)
  also have "map (joinRow rowOrUndefined ps) [0..<10]
               = map (\<lambda>row. joinWith [blank] (map (\<lambda>g. g ! row) ps)) [0..<10]"
    by (rule map_cong) (simp_all add: joinRow_joinWith cell)
  finally show ?thesis by (simp only: ps_def)
qed

lemma rectangular_rows:
  assumes "\<forall>g \<in> set glyphs. length g = h \<and> (\<forall>r \<in> set g. length r = length (g ! 0))"
    and "row < h"
  shows "length (joinWith [blank] (map (\<lambda>g. if row < length g then g ! row else []) glyphs))
           = sum_list (map (\<lambda>g. length (g ! 0)) glyphs) + (length glyphs - 1)"
proof -
  have cell: "length (if row < length g then g ! row else []) = length (g ! 0)"
    if "g \<in> set glyphs" for g
  proof -
    from assms(1) that have h: "length g = h" and r: "\<forall>r \<in> set g. length r = length (g ! 0)"
      by simp_all
    from h assms(2) have lt: "row < length g" by simp
    then have "g ! row \<in> set g" by (rule nth_mem)
    with r have "length (g ! row) = length (g ! 0)" by (rule bspec)
    with lt show ?thesis by simp
  qed
  have "map length (map (\<lambda>g. if row < length g then g ! row else []) glyphs)
          = map (\<lambda>g. length (if row < length g then g ! row else [])) glyphs"
    by (simp only: map_map comp_def)
  also have "\<dots> = map (\<lambda>g. length (g ! 0)) glyphs"
    by (rule map_cong) (simp_all only: cell)
  finally have eq: "map length (map (\<lambda>g. if row < length g then g ! row else []) glyphs)
          = map (\<lambda>g. length (g ! 0)) glyphs" .
  show ?thesis by (simp only: length_joinWith eq) simp
qed

lemma foldr_max_const:
  "xs \<noteq> [] \<Longrightarrow> \<forall>x \<in> set xs. x = h \<Longrightarrow> foldr max xs (0::nat) = h"
proof (induction xs)
  case Nil
  then show ?case by simp
next
  case (Cons x xs)
  then show ?case by (cases "xs = []") simp_all
qed

lemma combineRendered_rectangular:
  assumes "\<forall>g \<in> set (map splitLines renderedChars).
             length g = h \<and> (\<forall>r \<in> set g. length r = length (g ! 0))"
  shows "\<forall>row \<in> set (combineRendered renderedChars).
           length row = sum_list (map (\<lambda>g. length (g ! 0)) (map splitLines renderedChars))
                          + (length renderedChars - 1)"
proof
  fix line
  assume "line \<in> set (combineRendered renderedChars)"
  then obtain row where row: "row < length (combineRendered renderedChars)"
    and line: "line = combineRendered renderedChars ! row"
    by (auto simp: in_set_conv_nth)
  then have ne: "renderedChars \<noteq> []" by (auto simp: combineRendered_def)
  from assms have "\<forall>x \<in> set (map length (map splitLines renderedChars)). x = h" by simp
  with ne have "foldr max (map length (map splitLines renderedChars)) 0 = h"
    by (intro foldr_max_const) simp_all
  with row have "row < h" by (simp add: combineRendered_def Let_def)
  from rectangular_rows [OF assms this] show
    "length line = sum_list (map (\<lambda>g. length (g ! 0)) (map splitLines renderedChars))
                          + (length renderedChars - 1)"
    by (simp add: line combineRendered_row [OF row])
qed

text \<open>
  C3, as the code has it. In \<open>renderJapaneseWithJisFont\<close> the canvas of a non-empty
  text is the combination of the rendered characters: its height is the greatest
  row count; a row is the rows of the glyphs at that index, joined by one space, a
  glyph that has no such row giving the empty string (no padding). Every row of the
  canvas has the same length when all glyphs have the same number of rows and each
  glyph is rectangular. \<open>createJapaneseArt\<close> joins the rows of the ten-row
  placeholder patterns in the same way.
\<close>

theorem uniform_composition:
  "(renderedChars \<noteq> [] \<longrightarrow>
      length (combineRendered renderedChars)
        = Max (set (map length (map splitLines renderedChars))))
   \<and> (\<forall>row < length (combineRendered renderedChars).
        combineRendered renderedChars ! row
          = joinWith [blank] (map (\<lambda>g. if row < length g then g ! row else [])
                                (map splitLines renderedChars)))
   \<and> ((\<forall>g \<in> set (map splitLines renderedChars).
          length g = h \<and> (\<forall>r \<in> set g. length r = length (g ! 0))) \<longrightarrow>
       (\<forall>row \<in> set (combineRendered renderedChars).
          length row = sum_list (map (\<lambda>g. length (g ! 0)) (map splitLines renderedChars))
                         + (length renderedChars - 1)))
   \<and> (\<not> fontUnavailable st \<and> text \<noteq> [] \<longrightarrow>
        renderJapaneseWithJisFont L st text
          = Some (joinLines (combineRendered (map (renderOneChar L st) (arrayFrom text)))))
   \<and> (text \<noteq> [] \<longrightarrow>
        createJapaneseArt text
          = Inr (map (\<lambda>row. joinWith [blank]
                               (map (\<lambda>p. p ! row)
                                  (map getJapaneseCharPattern (arrayFrom text))))
                   [0..<10]))"
  using combineRendered_height [of renderedChars] combineRendered_row [of _ renderedChars]
    combineRendered_rectangular [of renderedChars h]
    renderJapaneseWithJisFont_combine [of st "text" L] createJapaneseArt_rows [of "text"]
  by (intro conjI impI allI) simp_all

text \<open>Witness: two glyphs of two rows, of widths 2 and 1: two rows of length 4.\<close>

theorem uniform_composition_witness:
  "glyphsSameHeight \<noteq> []
   \<and> length (combineRendered glyphsSameHeight) = 2
   \<and> length (combineRendered glyphsSameHeight ! 0) = 4
   \<and> length (combineRendered glyphsSameHeight ! 1) = 4"
proof -
  have sp: "map splitLines glyphsSameHeight = [[[0x61, 0x62], [0x63, 0x64]], [[0x78], [0x79]]]"
    by (simp add: glyphsSameHeight_def newline_def)
  have ne: "glyphsSameHeight \<noteq> []" by (simp add: glyphsSameHeight_def)
  have rect: "\<forall>g \<in> set (map splitLines glyphsSameHeight).
                length g = 2 \<and> (\<forall>r \<in> set g. length r = length (g ! 0))"
    by (simp add: sp)
  have two: "length glyphsSameHeight = 2" by (simp add: glyphsSameHeight_def)
  note height = uniform_composition [of glyphsSameHeight 2, THEN conjunct1, THEN mp, OF ne]
  note rows = uniform_composition [of glyphsSameHeight 2, THEN conjunct2, THEN conjunct2,
      THEN conjunct1, THEN mp, OF rect]
  from height have len: "length (combineRendered glyphsSameHeight) = 2"
    by (simp add: sp)
  from rows have all: "\<forall>row \<in> set (combineRendered glyphsSameHeight). length row = 4"
    by (simp add: sp two)
  from len have "combineRendered glyphsSameHeight ! 0 \<in> set (combineRendered glyphsSameHeight)"
    "combineRendered glyphsSameHeight ! 1 \<in> set (combineRendered glyphsSameHeight)"
    by simp_all
  with all have "length (combineRendered glyphsSameHeight ! 0) = 4"
    "length (combineRendered glyphsSameHeight ! 1) = 4"
    by blast+
  with ne len show ?thesis by simp
qed

text \<open>
  C3 as stated fails where glyphs differ in height: with the font of two entries
  above, hiragana A has a one-row glyph and hiragana I a two-row glyph, each row one
  ink cell of three code units. The second row of the canvas gets nothing for the
  first glyph, so the rows have 7 and 4 code units.
\<close>

theorem canvas_rows_of_unequal_length:
  "renderJapaneseWithJisFont libsKana (loadModule (Some fontTwoHeights)) [0x3042, 0x3044]
     = Some [0x201A, 0x0116, 0x0105, 0x20, 0x201A, 0x0116, 0x0105, 0x0A,
             0x20, 0x201A, 0x0116, 0x0105]
   \<and> map length (splitLines [0x201A, 0x0116, 0x0105, 0x20, 0x201A, 0x0116, 0x0105, 0x0A,
                             0x20, 0x201A, 0x0116, 0x0105]) = [7, 4]"
proof -
  have ne: "fontTwoHeights \<noteq> []" by (simp add: fontTwoHeights_def)
  have a: "renderOneChar libsKana (loadModule (Some fontTwoHeights)) [0x3042]
             = [0x201A, 0x0116, 0x0105]"
    by (simp add: renderOneChar_def renderJisCharacter_def fontUnavailable_def loadModule_def
        parse_fontTwoHeights ne unicodeToJisHexCode_def libsKana_def hit_def
        jisCandidate_def hexCodeOf_def shiftOr_def toString16_def hexDigits.simps hexDigit_def
        toLowerCase_def padStart_def mapHas_def mapGet_def)
  have i: "renderOneChar libsKana (loadModule (Some fontTwoHeights)) [0x3044]
             = [0x201A, 0x0116, 0x0105, 0x0A, 0x201A, 0x0116, 0x0105]"
    by (simp add: renderOneChar_def renderJisCharacter_def fontUnavailable_def loadModule_def
        parse_fontTwoHeights ne unicodeToJisHexCode_def trySjis_def
        fallbackLibrary_def libsKana_def hit_def
        jisCandidate_def hexCodeOf_def shiftOr_def toString16_def hexDigits.simps hexDigit_def
        toLowerCase_def padStart_def mapHas_def mapGet_def)
  have chars: "arrayFrom [0x3042, 0x3044] = [[0x3042], [0x3044]]"
    by (simp add: isHighSurrogate_def)
  have avail: "\<not> fontUnavailable (loadModule (Some fontTwoHeights))"
    by (simp add: fontUnavailable_def loadModule_def parse_fontTwoHeights ne)
  have "combineRendered [[0x201A, 0x0116, 0x0105],
                         [0x201A, 0x0116, 0x0105, 0x0A, 0x201A, 0x0116, 0x0105]]
          = [[0x201A, 0x0116, 0x0105, 0x20, 0x201A, 0x0116, 0x0105],
             [0x20, 0x201A, 0x0116, 0x0105]]"
    by (simp add: combineRendered_def Let_def rowOrEmpty_def newline_def blank_def upt_rec)
  then have "renderJapaneseWithJisFont libsKana (loadModule (Some fontTwoHeights)) [0x3042, 0x3044]
     = Some [0x201A, 0x0116, 0x0105, 0x20, 0x201A, 0x0116, 0x0105, 0x0A,
             0x20, 0x201A, 0x0116, 0x0105]"
    unfolding renderJapaneseWithJisFont_def chars using avail by (simp add: a i newline_def)
  moreover have "map length (splitLines [0x201A, 0x0116, 0x0105, 0x20, 0x201A, 0x0116, 0x0105,
                                         0x0A, 0x20, 0x201A, 0x0116, 0x0105]) = [7, 4]"
    by (simp add: newline_def)
  ultimately show ?thesis by simp
qed


section \<open>The double arithmetic of the diagonal shift\<close>

lemma bitLength_bounds:
  "0 < n \<Longrightarrow> 2 ^ (bitLength n - 1) \<le> n \<and> n < 2 ^ bitLength n"
proof (induction n rule: bitLength.induct)
  case (1 n)
  show ?case
  proof (cases "n div 2 = 0")
    case True
    with "1.prems" have "n = 1" by (simp add: div_eq_0_iff)
    then show ?thesis by (simp add: bitLength.simps)
  next
    case False
    then have pos: "0 < n div 2" by simp
    from "1.IH" [OF _ pos] "1.prems"
    have ih: "2 ^ (bitLength (n div 2) - 1) \<le> n div 2" "n div 2 < 2 ^ bitLength (n div 2)"
      by auto
    have bl: "bitLength n = Suc (bitLength (n div 2))"
      using "1.prems" by (subst bitLength.simps) simp
    have gt: "0 < bitLength (n div 2)"
      using pos by (subst bitLength.simps) simp
    then obtain k where k: "bitLength (n div 2) = Suc k" by (cases "bitLength (n div 2)") auto
    from ih k have "2 ^ k \<le> n div 2" "n div 2 < 2 ^ Suc k" by auto
    then have "2 * 2 ^ k \<le> n" "n < 2 * 2 ^ Suc k" by arith+
    then show ?thesis by (simp add: bl k)
  qed
qed

text \<open>\<open>binade x\<close> is the exponent of the power of two at or below \<open>x\<close>.\<close>

lemma binade_bounds:
  assumes "0 < x"
  shows "power_int 2 (binade x) \<le> x \<and> x < power_int 2 (binade x + 1)"
proof -
  obtain p q where pq: "quotient_of x = (p, q)" by (cases "quotient_of x")
  then have q: "0 < q" by (rule quotient_of_denom_pos)
  from pq have x: "x = of_int p / of_int q" by (rule quotient_of_div)
  with assms q have p: "0 < p" by (simp add: zero_less_divide_iff)
  define a where "a = bitLength (nat p)"
  define b where "b = bitLength (nat q)"
  define k where "k = int a - int b"
  from bitLength_bounds [of "nat p"] p have pa: "2 ^ (a - 1) \<le> nat p" "nat p < 2 ^ a"
    by (simp_all add: a_def)
  from bitLength_bounds [of "nat q"] q have qb: "2 ^ (b - 1) \<le> nat q" "nat q < 2 ^ b"
    by (simp_all add: b_def)
  have a0: "0 < a" using pa(2) p by (cases a) auto
  have b0: "0 < b" using qb(2) q by (cases b) auto
  have pr: "(2::rat) ^ (a - 1) \<le> of_int p" "of_int p < (2::rat) ^ a"
  proof -
    have "of_nat (2 ^ (a - 1)) \<le> (of_nat (nat p) :: rat)" using pa(1) by (simp only: of_nat_le_iff)
    then show "(2::rat) ^ (a - 1) \<le> of_int p" using p by simp
    have "(of_nat (nat p) :: rat) < of_nat (2 ^ a)" using pa(2) by (simp only: of_nat_less_iff)
    then show "of_int p < (2::rat) ^ a" using p by simp
  qed
  have qr: "(2::rat) ^ (b - 1) \<le> of_int q" "of_int q < (2::rat) ^ b"
  proof -
    have "of_nat (2 ^ (b - 1)) \<le> (of_nat (nat q) :: rat)" using qb(1) by (simp only: of_nat_le_iff)
    then show "(2::rat) ^ (b - 1) \<le> of_int q" using q by simp
    have "(of_nat (nat q) :: rat) < of_nat (2 ^ b)" using qb(2) by (simp only: of_nat_less_iff)
    then show "of_int q < (2::rat) ^ b" using q by simp
  qed
  have qpos: "(0::rat) < of_int q" using q by simp
  have pk1: "power_int (2::rat) (k + 1) = 2 ^ a / 2 ^ (b - 1)"
  proof -
    have "k + 1 = int a - int (b - 1)" using b0 by (simp add: k_def)
    then show ?thesis by (simp add: power_int_diff)
  qed
  have pkm: "power_int (2::rat) (k - 1) = 2 ^ (a - 1) / 2 ^ b"
  proof -
    have "k - 1 = int (a - 1) - int b" using a0 by (simp add: k_def)
    then show ?thesis by (simp add: power_int_diff)
  qed
  have upper: "x < power_int 2 (k + 1)"
  proof -
    have "of_int p * (2::rat) ^ (b - 1) < 2 ^ a * of_int q"
      using pr(2) qr(1) qpos
      by (meson less_le_trans mult_le_cancel_left_pos mult_less_cancel_right_pos zero_less_numeral zero_less_power order_less_le_trans mult_strict_right_mono mult_left_mono zero_le_numeral zero_le_power less_imp_le)
    then have "of_int p / of_int q < (2::rat) ^ a / 2 ^ (b - 1)"
      using qpos by (simp add: field_simps)
    then show ?thesis unfolding x pk1 .
  qed
  have lower: "power_int 2 (k - 1) \<le> x"
  proof -
    have "(2::rat) ^ (a - 1) * of_int q \<le> of_int p * 2 ^ b"
      using pr(1) qr(2) qpos p
      by (meson less_imp_le mult_mono of_int_0_le_iff zero_le_numeral zero_le_power order_less_imp_le)
    then have "(2::rat) ^ (a - 1) / 2 ^ b \<le> of_int p / of_int q"
      using qpos by (simp add: field_simps)
    then show ?thesis unfolding x pkm .
  qed
  have bin: "binade x = (if power_int 2 k \<le> x then k else k - 1)"
    by (simp add: binade_def pq a_def b_def k_def Let_def)
  show ?thesis
  proof (cases "power_int 2 k \<le> x")
    case True
    with upper show ?thesis by (simp add: bin)
  next
    case False
    with lower show ?thesis by (simp add: bin)
  qed
qed

lemma binade_unique:
  assumes "0 < x" "power_int 2 e \<le> x" "x < power_int 2 (e + 1)"
  shows "binade x = e"
proof -
  from binade_bounds [OF assms(1)]
  have b: "power_int 2 (binade x) \<le> x" "x < power_int 2 (binade x + 1)" by auto
  have "power_int (2::rat) e < power_int 2 (binade x + 1)" using assms(2) b(2) by simp
  then have 1: "e < binade x + 1"
    by (metis linorder_not_less power_int_increasing one_le_numeral)
  have "power_int (2::rat) (binade x) < power_int 2 (e + 1)" using assms(3) b(1) by simp
  then have 2: "binade x < e + 1"
    by (metis linorder_not_less power_int_increasing one_le_numeral)
  from 1 2 show ?thesis by simp
qed

lemma roundTiesToEven_eval:
  assumes "of_int m - 1 / 2 < y" "y < of_int m + 1 / 2"
  shows "roundTiesToEven y = m"
proof (cases "of_int m \<le> y")
  case True
  with assms have f: "\<lfloor>y\<rfloor> = m" by (simp add: floor_eq_iff)
  with assms show ?thesis by (simp add: roundTiesToEven_def Let_def)
next
  case False
  with assms have f: "\<lfloor>y\<rfloor> = m - 1" by (simp add: floor_eq_iff)
  with assms False show ?thesis by (simp add: roundTiesToEven_def Let_def)
qed

lemma roundTiesToEven_tie:
  assumes "y = of_int f + 1 / 2"
  shows "roundTiesToEven y = (if even f then f else f + 1)"
proof -
  from assms have "\<lfloor>y\<rfloor> = f" by (simp add: floor_eq_iff)
  with assms show ?thesis by (simp add: roundTiesToEven_def Let_def)
qed

text \<open>How a rounding is checked at a concrete number: the binade by its two
  bounds, the significand by its distance from the scaled number.\<close>

lemma toDouble_eval:
  assumes "0 < x" "power_int 2 e \<le> x" "x < power_int 2 (e + 1)"
    and "of_int m - 1 / 2 < x / power_int 2 (e - 52)"
    and "x / power_int 2 (e - 52) < of_int m + 1 / 2"
  shows "toDouble x = of_int m * power_int 2 (e - 52)"
  using assms(1) binade_unique [OF assms(1-3)] roundTiesToEven_eval [OF assms(4,5)]
  by (simp add: toDouble_def Let_def)

lemma toDouble_eval_tie:
  assumes "0 < x" "power_int 2 e \<le> x" "x < power_int 2 (e + 1)"
    and "x / power_int 2 (e - 52) = of_int f + 1 / 2"
  shows "toDouble x = of_int (if even f then f else f + 1) * power_int 2 (e - 52)"
  using assms(1) binade_unique [OF assms(1-3)] roundTiesToEven_tie [OF assms(4)]
  by (simp add: toDouble_def Let_def)

lemma floorShift_eval:
  assumes d: "toDouble (of_nat i / of_nat n) = d"
    and s: "toDouble (d * of_nat L) = s"
    and t: "toDouble (of_nat c + s) = t"
    and f: "of_int f \<le> t" "t < of_int f + 1"
  shows "floorShift c i n L = nat f"
proof -
  from f have "\<lfloor>t\<rfloor> = f" by (simp add: floor_eq_iff)
  then show ?thesis
    by (simp add: floorShift_def jsAdd_def jsMul_def jsDiv_def Let_def d s t)
qed

text \<open>Row 7 of 10 with 90 colours: \<open>7 / 10\<close> rounds down and so does the product
  with 90, to the double just below 63. Adding 0 leaves it there; adding 2 gives a
  number half-way between two doubles, which goes to the even one, 65.\<close>

lemma double_7_10: "toDouble (7 / 10) = 6305039478318694 * power_int 2 (-53)"
  using toDouble_eval [of "7/10" "-1" 6305039478318694]
  by (simp add: power_int_minus)

lemma double_7_10_90:
  "toDouble (6305039478318694 * power_int 2 (-53) * 90) = 8866461766385663 * power_int 2 (-47)"
  using toDouble_eval [of "6305039478318694 * power_int 2 (-53) * 90" 5 8866461766385663]
  by (simp add: power_int_minus)

lemma double_7_10_90_plus_0:
  "toDouble (0 + 8866461766385663 * power_int 2 (-47)) = 8866461766385663 * power_int 2 (-47)"
  using toDouble_eval [of "8866461766385663 * power_int 2 (-47)" 5 8866461766385663]
  by (simp add: power_int_minus)

lemma double_7_10_90_plus_2:
  "toDouble (2 + 8866461766385663 * power_int 2 (-47)) = 4573968371548160 * power_int 2 (-46)"
  using toDouble_eval_tie [of "2 + 8866461766385663 * power_int 2 (-47)" 6 4573968371548159]
  by (simp add: power_int_minus)

lemma floorShift_0_7_10_90: "floorShift 0 7 10 90 = 62"
  using floorShift_eval [of 7 10 "6305039478318694 * power_int 2 (-53)" 90
      "8866461766385663 * power_int 2 (-47)" 0 "8866461766385663 * power_int 2 (-47)" 62]
    double_7_10 double_7_10_90 double_7_10_90_plus_0
  by (simp add: power_int_minus)

lemma floorShift_2_7_10_90: "floorShift 2 7 10 90 = 65"
  using floorShift_eval [of 7 10 "6305039478318694 * power_int 2 (-53)" 90
      "8866461766385663 * power_int 2 (-47)" 2 "4573968371548160 * power_int 2 (-46)" 65]
    double_7_10 double_7_10_90 double_7_10_90_plus_2
  by (simp add: power_int_minus)


section \<open>Colouring: the claims C7 and C6\<close>

lemma trim_empty_iff: "trim s = [] \<longleftrightarrow> list_all isWhiteSpace s"
proof
  assume "trim s = []"
  then have all: "\<forall>u \<in> set (dropWhile isWhiteSpace s). isWhiteSpace u"
    by (simp add: trim_def dropWhile_eq_Nil_conv)
  have "dropWhile isWhiteSpace s = []"
  proof (rule ccontr)
    assume ne: "dropWhile isWhiteSpace s \<noteq> []"
    then have "\<not> isWhiteSpace (hd (dropWhile isWhiteSpace s))" by (rule hd_dropWhile)
    moreover from ne have "hd (dropWhile isWhiteSpace s) \<in> set (dropWhile isWhiteSpace s)"
      by (rule hd_in_set)
    ultimately show False using all by blast
  qed
  then show "list_all isWhiteSpace s" by (simp add: dropWhile_eq_Nil_conv list_all_iff)
next
  assume "list_all isWhiteSpace s"
  then have "dropWhile isWhiteSpace s = []" by (simp add: dropWhile_eq_Nil_conv list_all_iff)
  then show "trim s = []" by (simp only: trim_def) simp
qed

lemma horizontalLines_blend:
  "horizontalLines G palette canvas = map (horizontalBlend G palette) (splitLines canvas)"
  by (simp add: horizontalLines_def horizontalBlend_def trim_empty_iff)

lemma diagonalLines_nth:
  assumes "index < length (splitLines canvas)"
  shows "diagonalLines G palette canvas ! index
           = horizontalBlend G (shiftedPalette palette index (length (splitLines canvas)))
               (splitLines canvas ! index)"
  using assms by (simp add: diagonalLines_def Let_def horizontalBlend_def trim_empty_iff)

lemma shiftedPalette_nth:
  "c < length palette \<Longrightarrow>
     shiftedPalette palette index n ! c
       = palette ! (floorShift c index n (length palette) mod length palette)"
  by (simp add: shiftedPalette_def)

lemma splitLines_line: "newline \<notin> set r \<Longrightarrow> splitLines r = [r]"
  by (induction r) auto

lemma splitLines_append:
  "newline \<notin> set r \<Longrightarrow> splitLines (r @ newline # s) = r # splitLines s"
  by (induction r) auto

lemma splitLines_joinLines:
  "rows \<noteq> [] \<Longrightarrow> \<forall>r \<in> set rows. newline \<notin> set r \<Longrightarrow> splitLines (joinLines rows) = rows"
proof (induction rows rule: joinLines.induct)
  case 1
  then show ?case by simp
next
  case (2 l)
  then show ?case by (simp add: splitLines_line)
next
  case (3 l v va)
  then show ?case by (simp add: splitLines_append)
qed

text \<open>
  The \<open>horizontal\<close> and the \<open>diagonal\<close> branch have a guard for a whitespace-only
  row, which they return unchanged; the default branch hands the canvas to
  \<open>multiline\<close> as it is.
\<close>

lemma guarded_branches_keep_blank_rows:
  assumes "i < length (splitLines canvas)" and "list_all isWhiteSpace (splitLines canvas ! i)"
  shows "horizontalLines G palette canvas ! i = splitLines canvas ! i"
    and "diagonalLines G palette canvas ! i = splitLines canvas ! i"
  using assms by (simp_all add: horizontalLines_blend diagonalLines_nth horizontalBlend_def)

lemma parse_fontBlankRow:
  "parseJisFontData fontBlankRow
     = [([0x32, 0x34, 0x32, 0x32], [0x20, 0x20, 0x0A, 0x201A, 0x0116, 0x0105])]"
  by (simp add: parseJisFontData_def fontBlankRow_def newline_def matchHeader_def isDigit_def
      isHexDigit_def blank_def trim_def isWhiteSpace_def mapSet_def toLowerCase_def
      replaceHashes_def inkCell_def Let_def)

lemma canvas_fontBlankRow:
  "renderJapaneseWithJisFont libsKana (loadModule (Some fontBlankRow)) hiraganaA
     = Some [0x20, 0x20, 0x0A, 0x201A, 0x0116, 0x0105]"
proof -
  have ne: "fontBlankRow \<noteq> []" by (simp add: fontBlankRow_def)
  have "renderOneChar libsKana (loadModule (Some fontBlankRow)) [0x3042]
          = [0x20, 0x20, 0x0A, 0x201A, 0x0116, 0x0105]"
    by (simp add: renderOneChar_def renderJisCharacter_def fontUnavailable_def loadModule_def
        parse_fontBlankRow ne unicodeToJisHexCode_def libsKana_def hit_def
        jisCandidate_def hexCodeOf_def shiftOr_def toString16_def hexDigits.simps hexDigit_def
        toLowerCase_def padStart_def mapHas_def mapGet_def)
  then show ?thesis
    by (simp add: renderJapaneseWithJisFont_def hiraganaA_def fontUnavailable_def loadModule_def
        parse_fontBlankRow ne)
qed

text \<open>
  C7. The font above gives hiragana A a glyph whose first row is two spaces, so the
  canvas of the text of that one character has a whitespace-only row. In the
  \<open>horizontal\<close> and in the \<open>diagonal\<close> direction the row comes back as it is. In the
  \<open>vertical\<close> direction the code returns \<open>gradientFn.multiline(asciiArt)\<close>: the blank
  row is handed to the library with the rest, and a \<open>multiline\<close> that colours every
  character returns it with colour codes, where the claim has it unchanged.
\<close>

theorem vertical_colours_blank_row:
  "renderJapaneseWithJisFont libsKana (loadModule (Some fontBlankRow)) hiraganaA
     = Some [0x20, 0x20, 0x0A, 0x201A, 0x0116, 0x0105]
   \<and> splitLines [0x20, 0x20, 0x0A, 0x201A, 0x0116, 0x0105]
       = [[0x20, 0x20], [0x201A, 0x0116, 0x0105]]
   \<and> trim [0x20, 0x20] = []
   \<and> renderJapaneseText libsKana G (loadModule (Some fontBlankRow)) hiraganaA palette ''horizontal''
       = Inr (joinLines [[0x20, 0x20], gradient G palette [0x201A, 0x0116, 0x0105]])
   \<and> renderJapaneseText libsKana G (loadModule (Some fontBlankRow)) hiraganaA palette ''diagonal''
       = Inr (joinLines [[0x20, 0x20],
                         gradient G (shiftedPalette palette 1 2) [0x201A, 0x0116, 0x0105]])
   \<and> renderJapaneseText libsKana G (loadModule (Some fontBlankRow)) hiraganaA palette ''vertical''
       = Inr (multiline G palette [0x20, 0x20, 0x0A, 0x201A, 0x0116, 0x0105])
   \<and> renderJapaneseText libsKana markingLib (loadModule (Some fontBlankRow)) hiraganaA palette3
         ''vertical''
       = Inr [0x1B, 0x20, 0x1B, 0x20, 0x0A, 0x1B, 0x201A, 0x1B, 0x0116, 0x1B, 0x0105]
   \<and> splitLines [0x1B, 0x20, 0x1B, 0x20, 0x0A, 0x1B, 0x201A, 0x1B, 0x0116, 0x1B, 0x0105] ! 0
       = [0x1B, 0x20, 0x1B, 0x20]"
proof -
  have sp: "splitLines [0x20, 0x20, 0x0A, 0x201A, 0x0116, 0x0105]
              = [[0x20, 0x20], [0x201A, 0x0116, 0x0105]]"
    by (simp add: newline_def)
  have ws: "trim [0x20, 0x20] = []"
    by (simp add: trim_def isWhiteSpace_def)
  have ink: "trim [0x201A, 0x0116, 0x0105] \<noteq> []"
    by (simp add: trim_def isWhiteSpace_def)
  have art: "asciiArtOf libsKana (loadModule (Some fontBlankRow)) hiraganaA
               = Inr [0x20, 0x20, 0x0A, 0x201A, 0x0116, 0x0105]"
    by (simp add: asciiArtOf_def canvas_fontBlankRow)
  have h: "horizontalLines G palette [0x20, 0x20, 0x0A, 0x201A, 0x0116, 0x0105]
             = [[0x20, 0x20], gradient G palette [0x201A, 0x0116, 0x0105]]"
    unfolding horizontalLines_def sp by (simp add: ws ink)
  have d: "diagonalLines G palette [0x20, 0x20, 0x0A, 0x201A, 0x0116, 0x0105]
             = [[0x20, 0x20], gradient G (shiftedPalette palette 1 2) [0x201A, 0x0116, 0x0105]]"
    unfolding diagonalLines_def sp by (simp add: ws ink upt_rec numeral_2_eq_2)
  have v: "multiline markingLib palette3 [0x20, 0x20, 0x0A, 0x201A, 0x0116, 0x0105]
             = [0x1B, 0x20, 0x1B, 0x20, 0x0A, 0x1B, 0x201A, 0x1B, 0x0116, 0x1B, 0x0105]"
    by (simp add: markingLib_def newline_def)
  have row: "splitLines [0x1B, 0x20, 0x1B, 0x20, 0x0A, 0x1B, 0x201A, 0x1B, 0x0116, 0x1B, 0x0105] ! 0
       = [0x1B, 0x20, 0x1B, 0x20]"
    by (simp add: newline_def)
  have dirs: "renderJapaneseText libsKana G (loadModule (Some fontBlankRow)) hiraganaA palette
                  ''horizontal''
       = Inr (joinLines [[0x20, 0x20], gradient G palette [0x201A, 0x0116, 0x0105]])"
    "renderJapaneseText libsKana G (loadModule (Some fontBlankRow)) hiraganaA palette ''diagonal''
       = Inr (joinLines [[0x20, 0x20],
                         gradient G (shiftedPalette palette 1 2) [0x201A, 0x0116, 0x0105]])"
    "renderJapaneseText libsKana G (loadModule (Some fontBlankRow)) hiraganaA palette ''vertical''
       = Inr (multiline G palette [0x20, 0x20, 0x0A, 0x201A, 0x0116, 0x0105])"
    by (simp_all only: renderJapaneseText_def art sum.case colorArt_def h d) simp_all
  have mark: "renderJapaneseText libsKana markingLib (loadModule (Some fontBlankRow)) hiraganaA
                palette3 ''vertical''
       = Inr [0x1B, 0x20, 0x1B, 0x20, 0x0A, 0x1B, 0x201A, 0x1B, 0x0116, 0x1B, 0x0105]"
    by (simp add: renderJapaneseText_def art colorArt_def v)
  from canvas_fontBlankRow sp ws dirs mark row show ?thesis by (simp only: simp_thms)
qed

lemma palette90_nth: "k < 90 \<Longrightarrow> palette90 ! k = cssColour k"
  by (simp add: palette90_def)

lemma genericPattern_no_newline:
  "newline \<notin> set char \<Longrightarrow> \<forall>r \<in> set (genericPattern char). newline \<notin> set r"
  by (simp add: genericPattern_def art_def inkCell_def blank_def newline_def)

lemma placeholder_canvas:
  "asciiArtOf L (loadModule None) hiraganaA = Inr (joinLines (genericPattern hiraganaA))"
proof -
  have "createJapaneseArt hiraganaA = Inr (genericPattern hiraganaA)"
    by (simp add: createJapaneseArt_def hiraganaA_def getJapaneseCharPattern_generic
        rowOrUndefined_def genericPattern_def upt_rec)
  moreover have "renderJapaneseWithJisFont L (loadModule None) hiraganaA = None"
    by (simp add: renderJapaneseWithJisFont_def fontUnavailable_def loadModule_def)
  ultimately show ?thesis by (simp add: asciiArtOf_def)
qed

text \<open>
  C6. With no font file the text of the one character hiragana A is drawn by the
  placeholder pattern, a canvas of ten rows. In the \<open>diagonal\<close> direction with a
  palette of 90 colours, row 7 is coloured with a palette whose colour 0 is colour
  62 of the original: the shift \<open>(7 / 10) * 90\<close> is the double just below 63, and
  the floor is taken after the colour index is added. The rotation by
  \<open>floor (7 * 90 / 10) = 63\<close> positions has colour 63 there. The palette of the row
  is no rotation by 62 either: at colour index 2 the sum rounds up and the colour is
  65, where the rotation by 62 has colour 64.
\<close>

theorem diagonal_palette_off_by_rounding:
  "renderJapaneseText L G (loadModule None) hiraganaA palette90 ''diagonal''
     = Inr (joinLines (diagonalLines G palette90 (joinLines (genericPattern hiraganaA))))
   \<and> length (splitLines (joinLines (genericPattern hiraganaA))) = 10
   \<and> diagonalLines G palette90 (joinLines (genericPattern hiraganaA)) ! 7
       = gradient G (shiftedPalette palette90 7 10) (genericPattern hiraganaA ! 7)
   \<and> length (shiftedPalette palette90 7 10) = 90
   \<and> shiftedPalette palette90 7 10 ! 0 = palette90 ! 62
   \<and> rotate (7 * 90 div 10 mod 90) palette90 ! 0 = palette90 ! 63
   \<and> palette90 ! 62 \<noteq> palette90 ! 63
   \<and> shiftedPalette palette90 7 10 ! 2 = palette90 ! 65
   \<and> rotate 62 palette90 ! 2 = palette90 ! 64
   \<and> palette90 ! 65 \<noteq> palette90 ! 64"
proof -
  have len: "length palette90 = 90" by (simp add: palette90_def)
  have rows: "splitLines (joinLines (genericPattern hiraganaA)) = genericPattern hiraganaA"
    by (rule splitLines_joinLines)
       (simp add: genericPattern_def, rule genericPattern_no_newline,
        simp add: newline_def hiraganaA_def)
  have ten: "length (genericPattern hiraganaA) = 10" by (simp add: genericPattern_def)
  have ink: "\<not> list_all isWhiteSpace (genericPattern hiraganaA ! 7)"
    by (simp add: genericPattern_def art_def inkCell_def isWhiteSpace_def)
  have render: "renderJapaneseText L G (loadModule None) hiraganaA palette90 ''diagonal''
     = Inr (joinLines (diagonalLines G palette90 (joinLines (genericPattern hiraganaA))))"
    by (simp add: renderJapaneseText_def placeholder_canvas colorArt_def)
  have "7 < length (splitLines (joinLines (genericPattern hiraganaA)))"
    by (simp add: rows ten)
  from diagonalLines_nth [OF this, of G palette90] ink
  have row: "diagonalLines G palette90 (joinLines (genericPattern hiraganaA)) ! 7
       = gradient G (shiftedPalette palette90 7 10) (genericPattern hiraganaA ! 7)"
    by (simp only: rows ten horizontalBlend_def if_False)
  have a: "shiftedPalette palette90 7 10 ! 0 = palette90 ! 62"
    by (simp add: shiftedPalette_nth len floorShift_0_7_10_90)
  have b: "shiftedPalette palette90 7 10 ! 2 = palette90 ! 65"
    by (simp add: shiftedPalette_nth len floorShift_2_7_10_90)
  have c: "rotate (7 * 90 div 10 mod 90) palette90 ! 0 = palette90 ! 63"
    "rotate 62 palette90 ! 2 = palette90 ! 64"
    by (simp_all add: nth_rotate len)
  have d: "palette90 ! 62 \<noteq> palette90 ! 63" "palette90 ! 65 \<noteq> palette90 ! 64"
    by (simp_all add: palette90_nth cssColour_def padStart_def hexDigits.simps hexDigit_def)
  have l: "length (shiftedPalette palette90 7 10) = 90"
    by (simp add: shiftedPalette_def len)
  from render rows ten row l a b c d show ?thesis by (simp only: simp_thms)
qed

end
